theory Spec2Isabelle
  imports Complex_Main "HOL-Library.AList" "HOL-Library.While_Combinator" "HOL-Library.Countable"
begin

section \<open>Data model of ViewIntersection.ts\<close>

text \<open>
  JavaScript numbers are modelled by exact numbers: degrees, areas and distances are
  reals, offsets and zoom levels are integers, tile addresses are naturals. The rounding
  of IEEE doubles is written out for the intersection test alone (\<open>geoBoxesIntersectFl\<close>).
  The one non-finite value the source uses, \<open>Infinity\<close>
  as the area of a root tile, is a constructor of its own.
\<close>

datatype number = Infinity | Finite real

text \<open>\<open>a < b\<close> for an area \<open>a\<close> and a finite threshold \<open>b\<close>: \<open>Infinity < b\<close> is false.\<close>

fun number_less :: "number \<Rightarrow> real \<Rightarrow> bool" where
  "number_less Infinity b = False"
| "number_less (Finite a) b = (a < b)"

text \<open>
  Modelled from the spec: the declaration of \<open>TileKey\<close> (in \<open>@here/harp-geoutils\<close>) is
  not among the sources. The specification has it as a hierarchical address of level,
  row and column, and the source builds the root with \<open>fromRowColumnLevel(0, 0, 0)\<close>.
\<close>

record TileKey =
  row :: nat
  column :: nat
  level :: nat

text \<open>
  Modelled from the spec: the declarations of \<open>GeoCoordinates\<close> and \<open>GeoBox\<close> are not
  among the sources. A box is an axis-aligned rectangle in degrees given by its
  south-west and north-east corners, whose altitudes are optional; \<open>west\<close>,
  \<open>east\<close>, \<open>south\<close> and \<open>north\<close> read the corners.
\<close>

record GeoCoordinates =
  latitude :: real
  longitude :: real
  altitude :: "real option"

record GeoBox =
  southWest :: GeoCoordinates
  northEast :: GeoCoordinates

definition west :: "GeoBox \<Rightarrow> real" where
  "west b = longitude (southWest b)"

definition east :: "GeoBox \<Rightarrow> real" where
  "east b = longitude (northEast b)"

definition south :: "GeoBox \<Rightarrow> real" where
  "south b = latitude (southWest b)"

definition north :: "GeoBox \<Rightarrow> real" where
  "north b = latitude (northEast b)"

datatype ProjectionType = Planar | Spherical

text \<open>
  The collaborators are records of the methods the source calls. \<open>scheme_id\<close> stands
  for the identity of the tiling scheme object, which \<open>compute\<close> compares with
  \<open>===\<close>. A data source is asked with \<open>zoomLevels[i]\<close>, which is \<open>undefined\<close>
  (\<open>None\<close>) when there are more data sources than zoom levels.
\<close>

record TilingScheme =
  scheme_id :: nat
  scheme_getGeoBox :: "TileKey \<Rightarrow> GeoBox"
  scheme_getSubTileKeys :: "TileKey \<Rightarrow> TileKey list"

record DataSource =
  shouldSubdivide :: "int option \<Rightarrow> TileKey \<Rightarrow> bool"

record ElevationRangeSource =
  ers_getTilingScheme :: nat

record MapView =
  mapView_geoBox :: "GeoBox option"
  mapView_viewportHeight :: real
  mapView_projectionType :: ProjectionType

record 'mat Camera =
  camera_projectionMatrix :: 'mat
  camera_matrixWorldInverse :: 'mat
  camera_position :: "real \<times> real \<times> real"

text \<open>
  Modelled from the spec: the declaration of \<open>TileKeyEntry\<close> (in FrustumIntersection.ts)
  is not among the sources. An entry holds tile key, area, offset, elevation range and
  distance; the constructor's trailing parameters are taken to default to 0 (the
  specification gives a root entry a zero elevation range), which the call sites below
  write out.
\<close>

record TileKeyEntry =
  tileKey :: TileKey
  area :: number
  offset :: int
  minElevation :: "real option"
  maxElevation :: "real option"
  distance :: real

text \<open>
  A JavaScript \<open>Map\<close> keeps its keys in insertion order: an association list, where
  \<open>set\<close> is \<open>AList.update\<close> (replace in place, or append), \<open>delete\<close> is
  \<open>AList.delete\<close> and \<open>get\<close> is \<open>map_of\<close>.
\<close>

type_synonym TileKeyEntries = "(nat \<times> TileKeyEntry) list"

type_synonym ZoomLevelTileKeyMap = "(int \<times> TileKeyEntries) list"

record IntersectionResult =
  tileKeyEntries :: ZoomLevelTileKeyMap
  calculationFinal :: bool

record 'mat ViewIntersection =
  m_viewProjectionMatrix :: 'mat
  m_rootTileKeys :: "TileKeyEntry list"
  m_tileKeyEntries :: ZoomLevelTileKeyMap
  m_worldBox :: "GeoBox option"
  m_camera :: "'mat Camera"
  mapView :: MapView
  m_tileWrappingEnabled :: bool
  m_enableMixedLod :: bool

datatype error = AssertionFailed

section \<open>Module-level functions\<close>

definition MaxError :: real where
  "MaxError = 1 / 10 ^ 7"

text \<open>
  \<open>getGeoBox\<close> shifts both corners of the scheme's box by \<open>360 * offset\<close> degrees of
  longitude. The scheme is taken to return a fresh box on every call.
\<close>

definition getGeoBox :: "TilingScheme \<Rightarrow> TileKey \<Rightarrow> int \<Rightarrow> GeoBox" where
  "getGeoBox tilingScheme childTileKey off =
     (let geoBox = scheme_getGeoBox tilingScheme childTileKey;
          longitudeOffset = 360 * real_of_int off
      in geoBox\<lparr>
           northEast := (northEast geoBox)\<lparr>longitude := longitude (northEast geoBox) + longitudeOffset\<rparr>,
           southWest := (southWest geoBox)\<lparr>longitude := longitude (southWest geoBox) + longitudeOffset\<rparr>\<rparr>)"

definition geoBoxesIntersect :: "GeoBox \<Rightarrow> GeoBox \<Rightarrow> bool" where
  "geoBoxesIntersect geoBoxA geoBoxB =
     (west geoBoxA < east geoBoxB - MaxError \<and>
      east geoBoxA \<ge> west geoBoxB + MaxError \<and>
      south geoBoxA \<le> north geoBoxB - MaxError \<and>
      north geoBoxA \<ge> south geoBoxB + MaxError)"

text \<open>
  The same test with the rounding of doubles written out. The source computes
  \<open>east - MaxError\<close> and \<open>west + MaxError\<close> in IEEE doubles: \<open>fl\<close> rounds the exact
  sum or difference to a double, and \<open>maxError\<close> is the double that \<open>1E-7\<close> denotes. The
  traversal below uses the exact test; where a claim is about the epsilon boundary
  itself, it is stated on this one.
\<close>

definition geoBoxesIntersectFl :: "(real \<Rightarrow> real) \<Rightarrow> real \<Rightarrow> GeoBox \<Rightarrow> GeoBox \<Rightarrow> bool" where
  "geoBoxesIntersectFl fl maxError geoBoxA geoBoxB =
     (west geoBoxA < fl (east geoBoxB - maxError) \<and>
      east geoBoxA \<ge> fl (west geoBoxB + maxError) \<and>
      south geoBoxA \<le> fl (north geoBoxB - maxError) \<and>
      north geoBoxA \<ge> fl (south geoBoxB + maxError))"




section \<open>The class ViewIntersection\<close>

definition rootTileKey :: TileKey where
  "rootTileKey = \<lparr>row = 0, column = 0, level = 0\<rparr>"

text \<open>
  \<open>computeRequiredInitialRootTileKeys\<close>: both branches push one entry for the root
  tile; the first leaves \<open>maxElevation\<close> to its default.
\<close>

definition computeRequiredInitialRootTileKeys ::
  "'mat ViewIntersection \<Rightarrow> real \<times> real \<times> real \<Rightarrow> 'mat ViewIntersection" where
  "computeRequiredInitialRootTileKeys this worldCenter =
     (let this1 = this\<lparr>m_rootTileKeys := []\<rparr>;
          tileWrappingEnabled = (mapView_projectionType (mapView this1) = Planar)
      in if \<not> tileWrappingEnabled \<or> \<not> m_tileWrappingEnabled this1
         then this1\<lparr>m_rootTileKeys := m_rootTileKeys this1 @
                [\<lparr>tileKey = rootTileKey, area = Infinity, offset = 0, minElevation = Some 0,
                  maxElevation = Some 0, distance = 0\<rparr>]\<rparr>
         else this1\<lparr>m_rootTileKeys := m_rootTileKeys this1 @
                [\<lparr>tileKey = rootTileKey, area = Infinity, offset = 0, minElevation = Some 0,
                  maxElevation = Some 0, distance = 0\<rparr>]\<rparr>)"

text \<open>
  \<open>updateFrustum\<close>: the matrix product is THREE's and is a parameter. An undefined
  \<open>mapView.geoBox\<close> gives the zero box at the origin.
\<close>

definition updateFrustum ::
  "('mat \<Rightarrow> 'mat \<Rightarrow> 'mat) \<Rightarrow> 'mat ViewIntersection \<Rightarrow> 'mat option \<Rightarrow> 'mat ViewIntersection" where
  "updateFrustum multiplyMatrices this projectionMatrixOverride =
     (let this1 = this\<lparr>m_viewProjectionMatrix :=
            multiplyMatrices
              (case projectionMatrixOverride of
                 Some m \<Rightarrow> m
               | None \<Rightarrow> camera_projectionMatrix (m_camera this))
              (camera_matrixWorldInverse (m_camera this))\<rparr>;
          this2 =
            (case mapView_geoBox (mapView this1) of
               None \<Rightarrow> this1\<lparr>m_worldBox := Some
                 \<lparr>southWest = \<lparr>latitude = 0, longitude = 0, altitude = Some 0\<rparr>,
                  northEast = \<lparr>latitude = 0, longitude = 0, altitude = Some 0\<rparr>\<rparr>\<rparr>
             | Some g \<Rightarrow> this1\<lparr>m_worldBox := Some g\<rparr>)
      in computeRequiredInitialRootTileKeys this2 (camera_position (m_camera this2)))"

text \<open>\<open>new Set(zoomLevels)\<close>: the distinct zoom levels, in order of first occurrence.\<close>

definition Set_new :: "'a list \<Rightarrow> 'a list" where
  "Set_new xs = foldl (\<lambda>s x. if x \<in> set s then s else s @ [x]) [] xs"

text \<open>
  \<open>dataSources.some((ds, i) => ds.shouldSubdivide(zoomLevels[i], tileKey))\<close>: the
  two lists are walked together, and a missing zoom level is \<open>undefined\<close>.
\<close>

fun some_shouldSubdivide :: "DataSource list \<Rightarrow> int list \<Rightarrow> TileKey \<Rightarrow> bool" where
  "some_shouldSubdivide [] zoomLevels k = False"
| "some_shouldSubdivide (ds # dss) zoomLevels k =
     (shouldSubdivide ds (case zoomLevels of [] \<Rightarrow> None | z # _ \<Rightarrow> Some z) k \<or>
      some_shouldSubdivide dss (tl zoomLevels) k)"

text \<open>
  The traversal state is the work list, with the top of the stack at the head, and the
  per-zoom maps. \<open>this.m_tileKeyEntries.get(zoomLevel)!\<close> followed by a mutation of
  the inner map is \<open>AList.map_entry\<close>; the outer map has an entry for every unique
  zoom level.
\<close>

type_synonym traversal = "TileKeyEntry list \<times> ZoomLevelTileKeyMap"

text \<open>The body of the loop over the children of a subdivided tile.\<close>

definition visitChild ::
  "(TileKey \<Rightarrow> int \<Rightarrow> nat) \<Rightarrow> TilingScheme \<Rightarrow> int list \<Rightarrow> GeoBox \<Rightarrow> TileKeyEntry \<Rightarrow>
   traversal \<Rightarrow> TileKey \<Rightarrow> traversal" where
  "visitChild getKeyForTileKeyAndOffset tilingScheme uniqueZoomLevels worldBox tileEntry s childTileKey =
     (let off = offset tileEntry;
          tileKeyAndOffset = getKeyForTileKeyAndOffset childTileKey off;
          geoBox = getGeoBox tilingScheme childTileKey off
      in if \<not> geoBoxesIntersect worldBox geoBox then s
         else
           let area' = 1;
               distance' = 1;
               subTileEntry = \<lparr>tileKey = childTileKey, area = Finite area', offset = off,
                 minElevation = altitude (southWest geoBox),
                 maxElevation = altitude (northEast geoBox), distance = distance'\<rparr>;
               entries = foldl (\<lambda>m zoomLevel.
                   if int (level (tileKey subTileEntry)) > zoomLevel then m
                   else AList.map_entry zoomLevel (AList.update tileKeyAndOffset subTileEntry) m)
                 (snd s) uniqueZoomLevels
           in (subTileEntry # fst s, entries))"

text \<open>
  One iteration of \<open>while (workList.length > 0)\<close>. An empty work list pops
  \<open>undefined\<close> and breaks, which leaves the state as it is.
\<close>

definition visitTile ::
  "(TileKey \<Rightarrow> int \<Rightarrow> nat) \<Rightarrow> bool \<Rightarrow> TilingScheme \<Rightarrow> int list \<Rightarrow> DataSource list \<Rightarrow>
   real \<Rightarrow> int list \<Rightarrow> GeoBox \<Rightarrow> traversal \<Rightarrow> traversal" where
  "visitTile getKeyForTileKeyAndOffset enableMixedLod tilingScheme zoomLevels dataSources
     targetTileArea uniqueZoomLevels worldBox s =
     (case fst s of
        [] \<Rightarrow> s
      | tileEntry # workList \<Rightarrow>
          let tileKey' = tileKey tileEntry;
              subdivide = some_shouldSubdivide dataSources zoomLevels tileKey'
          in if \<not> subdivide then (workList, snd s)
             else if enableMixedLod \<and> number_less (area tileEntry) targetTileArea
             then (workList, snd s)
             else
               let parentTileKey = getKeyForTileKeyAndOffset tileKey' (offset tileEntry);
                   entries = foldl (\<lambda>m zoomLevel.
                       if int (level tileKey') \<ge> zoomLevel then m
                       else AList.map_entry zoomLevel (AList.delete parentTileKey) m)
                     (snd s) uniqueZoomLevels
               in foldl
                    (visitChild getKeyForTileKeyAndOffset tilingScheme uniqueZoomLevels worldBox
                       tileEntry)
                    (workList, entries) (scheme_getSubTileKeys tilingScheme tileKey'))"

text \<open>The maps before the traversal: one empty map per unique zoom level, then the roots.\<close>

definition seedEntries ::
  "(TileKey \<Rightarrow> int \<Rightarrow> nat) \<Rightarrow> TileKeyEntry list \<Rightarrow> int list \<Rightarrow> ZoomLevelTileKeyMap" where
  "seedEntries getKeyForTileKeyAndOffset rootTileKeys uniqueZoomLevels =
     foldl (\<lambda>m item.
         let tileKeyEntry = \<lparr>tileKey = tileKey item, area = Infinity, offset = offset item,
               minElevation = minElevation item, maxElevation = maxElevation item,
               distance = 0\<rparr>
         in foldl (\<lambda>m zoomLevel.
                AList.map_entry zoomLevel
                  (AList.update (getKeyForTileKeyAndOffset (tileKey item) (offset item))
                     tileKeyEntry) m)
              m uniqueZoomLevels)
       (foldl (\<lambda>m zoomLevel. AList.update zoomLevel [] m) [] uniqueZoomLevels)
       rootTileKeys"

text \<open>
  The loop \<open>while (workList.length > 0)\<close>: \<open>None\<close> when the work list never
  empties, otherwise the state in which it is empty.
\<close>

definition traverse ::
  "(TileKey \<Rightarrow> int \<Rightarrow> nat) \<Rightarrow> bool \<Rightarrow> TilingScheme \<Rightarrow> int list \<Rightarrow> DataSource list \<Rightarrow>
   real \<Rightarrow> int list \<Rightarrow> GeoBox \<Rightarrow> traversal \<Rightarrow> traversal option" where
  "traverse getKeyForTileKeyAndOffset enableMixedLod tilingScheme zoomLevels dataSources
     targetTileArea uniqueZoomLevels worldBox s =
     while_option (\<lambda>s. fst s \<noteq> [])
       (visitTile getKeyForTileKeyAndOffset enableMixedLod tilingScheme zoomLevels dataSources
          targetTileArea uniqueZoomLevels worldBox) s"

text \<open>
  \<open>compute\<close>. The result is \<open>None\<close> when the traversal never empties its work list,
  \<open>Some (Inl AssertionFailed)\<close> when the viewport height is 0, and otherwise the
  object after the call together with the returned value (which aliases
  \<open>m_tileKeyEntries\<close>). \<open>useElevationRangeSource\<close> and \<open>obbIntersections\<close> are
  computed as in the source, where nothing reads them but the choice of the unused
  \<open>tileBounds\<close>. The key encoder \<open>TileOffsetUtils.getKeyForTileKeyAndOffset\<close> is
  not among the sources and is a parameter.

  Modelled from the spec: \<open>assert\<close> (in \<open>@here/harp-utils\<close>) is not among the sources.
  The specification has a viewport height of 0 as a precondition violation that the
  assertion guards and the call does not recover from: the call ends with an error.
\<close>

definition compute ::
  "(TileKey \<Rightarrow> int \<Rightarrow> nat) \<Rightarrow> 'mat ViewIntersection \<Rightarrow> TilingScheme \<Rightarrow>
   ElevationRangeSource option \<Rightarrow> int list \<Rightarrow> DataSource list \<Rightarrow>
   (error + 'mat ViewIntersection \<times> IntersectionResult) option" where
  "compute getKeyForTileKeyAndOffset this tilingScheme elevationRangeSource zoomLevels dataSources =
     (let this1 = this\<lparr>m_tileKeyEntries := []\<rparr>
      in case m_worldBox this1 of
           None \<Rightarrow> Some (Inr (this1, \<lparr>tileKeyEntries = m_tileKeyEntries this1,
                                      calculationFinal = True\<rparr>))
         | Some worldBox \<Rightarrow>
             let calculationFinal' = True
             in if mapView_viewportHeight (mapView this1) = 0 then Some (Inl AssertionFailed)
                else
                  let targetTileArea = (256 / mapView_viewportHeight (mapView this1)) ^ 2;
                      useElevationRangeSource =
                        (case elevationRangeSource of
                           None \<Rightarrow> False
                         | Some e \<Rightarrow> ers_getTilingScheme e = scheme_id tilingScheme);
                      obbIntersections =
                        (mapView_projectionType (mapView this1) = Spherical \<or>
                         useElevationRangeSource);
                      uniqueZoomLevels = Set_new zoomLevels;
                      entries = seedEntries getKeyForTileKeyAndOffset (m_rootTileKeys this1)
                                  uniqueZoomLevels;
                      workList = rev (m_rootTileKeys this1)
                  in (case traverse getKeyForTileKeyAndOffset (m_enableMixedLod this1)
                             tilingScheme zoomLevels dataSources targetTileArea
                             uniqueZoomLevels worldBox (workList, entries) of
                        None \<Rightarrow> None
                      | Some s \<Rightarrow>
                          Some (Inr (this1\<lparr>m_tileKeyEntries := snd s\<rparr>,
                                     \<lparr>tileKeyEntries = snd s,
                                      calculationFinal = calculationFinal'\<rparr>))))"

text \<open>The object as the constructor leaves it.\<close>

definition ViewIntersection_new ::
  "'mat \<Rightarrow> 'mat Camera \<Rightarrow> MapView \<Rightarrow> bool \<Rightarrow> bool \<Rightarrow> 'mat ViewIntersection" where
  "ViewIntersection_new identity camera mapView' tileWrappingEnabled enableMixedLod =
     \<lparr>m_viewProjectionMatrix = identity, m_rootTileKeys = [], m_tileKeyEntries = [],
      m_worldBox = None, m_camera = camera, mapView = mapView',
      m_tileWrappingEnabled = tileWrappingEnabled, m_enableMixedLod = enableMixedLod\<rparr>"

section \<open>Concrete collaborators for the examples\<close>

text \<open>
  A geographic quadtree: level \<open>l\<close> has \<open>2 ^ l\<close> rows and columns over
  \<open>[-180, 180] \<times> [-90, 90]\<close>, and a tile has four children.
\<close>

definition quadTreeScheme :: TilingScheme where
  "quadTreeScheme = \<lparr>scheme_id = 1,
     scheme_getGeoBox = (\<lambda>k.
       \<lparr>southWest = \<lparr>latitude = -90 + 180 * real (row k) / 2 ^ level k,
                      longitude = -180 + 360 * real (column k) / 2 ^ level k,
                      altitude = None\<rparr>,
        northEast = \<lparr>latitude = -90 + 180 * real (row k + 1) / 2 ^ level k,
                      longitude = -180 + 360 * real (column k + 1) / 2 ^ level k,
                      altitude = None\<rparr>\<rparr>),
     scheme_getSubTileKeys = (\<lambda>k.
       [\<lparr>row = 2 * row k, column = 2 * column k, level = level k + 1\<rparr>,
        \<lparr>row = 2 * row k, column = 2 * column k + 1, level = level k + 1\<rparr>,
        \<lparr>row = 2 * row k + 1, column = 2 * column k, level = level k + 1\<rparr>,
        \<lparr>row = 2 * row k + 1, column = 2 * column k + 1, level = level k + 1\<rparr>])\<rparr>"

text \<open>An injective key: the address and the offset paired up into one number.\<close>

definition pairKey :: "TileKey \<Rightarrow> int \<Rightarrow> nat" where
  "pairKey k off =
     prod_encode (level k, prod_encode (row k, prod_encode (column k,
       if 0 \<le> off then nat (2 * off) else nat (- 2 * off - 1))))"

text \<open>A data source that subdivides every tile below its zoom level.\<close>

definition levelSource :: DataSource where
  "levelSource = \<lparr>shouldSubdivide =
     (\<lambda>z k. case z of None \<Rightarrow> False | Some zoomLevel \<Rightarrow> int (level k) < zoomLevel)\<rparr>"

definition box :: "real \<Rightarrow> real \<Rightarrow> real \<Rightarrow> real \<Rightarrow> GeoBox" where
  "box w s e n =
     \<lparr>southWest = \<lparr>latitude = s, longitude = w, altitude = None\<rparr>,
      northEast = \<lparr>latitude = n, longitude = e, altitude = None\<rparr>\<rparr>"

definition exampleCamera :: "unit Camera" where
  "exampleCamera = \<lparr>camera_projectionMatrix = (), camera_matrixWorldInverse = (),
     camera_position = (0, 0, 0)\<rparr>"

text \<open>
  A view of the region 10..20 degrees east and north, 512 pixels high, without
  wraparound and without mixed LOD: as constructed, and after \<open>updateFrustum\<close>.
\<close>

definition freshView :: "unit ViewIntersection" where
  "freshView = ViewIntersection_new () exampleCamera
     \<lparr>mapView_geoBox = Some (box 10 10 20 20), mapView_viewportHeight = 512,
      mapView_projectionType = Planar\<rparr> False False"

definition exampleView :: "unit ViewIntersection" where
  "exampleView = updateFrustum (\<lambda>a b. ()) freshView None"

text \<open>The same view when \<open>mapView.geoBox\<close> is undefined.\<close>

definition degenerateView :: "unit ViewIntersection" where
  "degenerateView = updateFrustum (\<lambda>a b. ())
     (ViewIntersection_new () exampleCamera
        \<lparr>mapView_geoBox = None, mapView_viewportHeight = 512,
         mapView_projectionType = Planar\<rparr> False False) None"

text \<open>The entry both branches of the root seeding push.\<close>

definition rootEntry :: TileKeyEntry where
  "rootEntry = \<lparr>tileKey = rootTileKey, area = Infinity, offset = 0, minElevation = Some 0,
     maxElevation = Some 0, distance = 0\<rparr>"

text \<open>The entry \<open>compute\<close> builds for the north-east tile of level 1.\<close>

definition child11 :: TileKeyEntry where
  "child11 = \<lparr>tileKey = \<lparr>row = 1, column = 1, level = 1\<rparr>, area = Finite 1, offset = 0,
     minElevation = None, maxElevation = None, distance = 1\<rparr>"

text \<open>The maps in which every unique zoom level holds the root entry alone.\<close>

definition rootOnly :: "(TileKey \<Rightarrow> int \<Rightarrow> nat) \<Rightarrow> int list \<Rightarrow> ZoomLevelTileKeyMap" where
  "rootOnly getKeyForTileKeyAndOffset zoomLevels =
     map (\<lambda>zoomLevel. (zoomLevel, [(getKeyForTileKeyAndOffset rootTileKey 0, rootEntry)]))
       (Set_new zoomLevels)"

section \<open>The intersection test as the specification words it\<close>







text \<open>The box with its longitude and latitude extents exchanged.\<close>

definition transposeBox :: "GeoBox \<Rightarrow> GeoBox" where
  "transposeBox g =
     \<lparr>southWest = \<lparr>latitude = longitude (southWest g), longitude = latitude (southWest g),
                    altitude = altitude (southWest g)\<rparr>,
      northEast = \<lparr>latitude = longitude (northEast g), longitude = latitude (northEast g),
                    altitude = altitude (northEast g)\<rparr>\<rparr>"

section \<open>What a traversal has materialized\<close>

text \<open>The entries held by the per-zoom maps, and by a traversal state as a whole.\<close>

definition entriesOf :: "ZoomLevelTileKeyMap \<Rightarrow> TileKeyEntry set" where
  "entriesOf M = {e. \<exists>z m k. (z, m) \<in> set M \<and> (k, e) \<in> set m}"

definition materialized :: "traversal \<Rightarrow> TileKeyEntry set" where
  "materialized s = set (fst s) \<union> entriesOf (snd s)"

text \<open>The test a child has to pass: its shifted geo-box meets the world box.\<close>

definition survives :: "TilingScheme \<Rightarrow> GeoBox \<Rightarrow> TileKeyEntry \<Rightarrow> bool" where
  "survives tilingScheme worldBox e =
     geoBoxesIntersect worldBox (getGeoBox tilingScheme (tileKey e) (offset e))"

text \<open>The entry \<open>compute\<close> puts into the maps for a root item.\<close>

definition seededEntry :: "TileKeyEntry \<Rightarrow> TileKeyEntry" where
  "seededEntry item = \<lparr>tileKey = tileKey item, area = Infinity, offset = offset item,
     minElevation = minElevation item, maxElevation = maxElevation item, distance = 0\<rparr>"

section \<open>The partition invariant\<close>

text \<open>The address an entry stands for: its tile key and its offset.\<close>

definition addr :: "TileKeyEntry \<Rightarrow> TileKey \<times> int" where
  "addr e = (tileKey e, offset e)"

text \<open>
  Ancestors and descendants are those of the tiling scheme: a key is a child of the key
  whose \<open>getSubTileKeys\<close> lists it, and an ancestor is a parent of a parent, any number
  of times.
\<close>

definition isChild :: "TilingScheme \<Rightarrow> TileKey \<Rightarrow> TileKey \<Rightarrow> bool" where
  "isChild tilingScheme p c = (c \<in> set (scheme_getSubTileKeys tilingScheme p))"

definition isAncestor :: "TilingScheme \<Rightarrow> TileKey \<Rightarrow> TileKey \<Rightarrow> bool" where
  "isAncestor tilingScheme = tranclp (isChild tilingScheme)"

text \<open>
  The contract of a tiling scheme: children lie at a deeper level than their parent, a
  key has one parent, and \<open>getSubTileKeys\<close> lists no key twice.
\<close>

definition treeScheme :: "TilingScheme \<Rightarrow> bool" where
  "treeScheme tilingScheme =
     ((\<forall>p c. isChild tilingScheme p c \<longrightarrow> level p < level c) \<and>
      (\<forall>p p' c. isChild tilingScheme p c \<longrightarrow> isChild tilingScheme p' c \<longrightarrow> p = p') \<and>
      (\<forall>p. distinct (scheme_getSubTileKeys tilingScheme p)))"

text \<open>No two entries of a map are an ancestor and a descendant at the same offset.\<close>

definition partitioned :: "TilingScheme \<Rightarrow> TileKeyEntries \<Rightarrow> bool" where
  "partitioned tilingScheme m =
     (\<forall>(k1, e1) \<in> set m. \<forall>(k2, e2) \<in> set m.
        offset e1 = offset e2 \<longrightarrow> \<not> isAncestor tilingScheme (tileKey e1) (tileKey e2))"

text \<open>The same relation on addresses.\<close>

definition ancestorAt :: "TilingScheme \<Rightarrow> TileKey \<times> int \<Rightarrow> TileKey \<times> int \<Rightarrow> bool" where
  "ancestorAt tilingScheme x y = (snd x = snd y \<and> isAncestor tilingScheme (fst x) (fst y))"

text \<open>The addresses a map holds; and a map whose keys are those of its entries.\<close>

definition ids :: "TileKeyEntries \<Rightarrow> (TileKey \<times> int) set" where
  "ids m = addr ` snd ` set m"

definition keyed :: "(TileKey \<Rightarrow> int \<Rightarrow> nat) \<Rightarrow> TileKeyEntries \<Rightarrow> bool" where
  "keyed getKey m = (\<forall>(k, e) \<in> set m. k = getKey (tileKey e) (offset e))"

text \<open>The entry \<open>compute\<close> builds for a surviving child.\<close>

definition childEntry :: "TilingScheme \<Rightarrow> TileKeyEntry \<Rightarrow> TileKey \<Rightarrow> TileKeyEntry" where
  "childEntry tilingScheme tileEntry childTileKey =
     \<lparr>tileKey = childTileKey, area = Finite 1, offset = offset tileEntry,
      minElevation = altitude (southWest (getGeoBox tilingScheme childTileKey (offset tileEntry))),
      maxElevation = altitude (northEast (getGeoBox tilingScheme childTileKey (offset tileEntry))),
      distance = 1\<rparr>"

text \<open>
  The invariant of the traversal, for the map of zoom level \<open>z\<close> and the addresses
  \<open>W\<close> on the stack: entries lie at a level up to \<open>z\<close> (or at level 0); no ancestor
  of an entry of the map or of the stack is on the stack; and no ancestor at a level
  below \<open>z\<close> of such an entry is in the map.
\<close>

definition mapInv ::
  "TilingScheme \<Rightarrow> (TileKey \<Rightarrow> int \<Rightarrow> nat) \<Rightarrow> (TileKey \<times> int) set \<Rightarrow> int \<Rightarrow>
   TileKeyEntries \<Rightarrow> bool" where
  "mapInv ts getKey W z m =
     (keyed getKey m \<and>
      (\<forall>y \<in> ids m. int (level (fst y)) \<le> z \<or> level (fst y) = 0) \<and>
      (\<forall>y \<in> ids m. \<forall>x. ancestorAt ts x y \<longrightarrow> x \<notin> W) \<and>
      (\<forall>y \<in> W. \<forall>x. ancestorAt ts x y \<longrightarrow> int (level (fst x)) < z \<longrightarrow> x \<notin> ids m) \<and>
      (\<forall>y \<in> ids m. \<forall>x. ancestorAt ts x y \<longrightarrow> int (level (fst x)) < z \<longrightarrow> x \<notin> ids m))"

definition traversalInv ::
  "TilingScheme \<Rightarrow> (TileKey \<Rightarrow> int \<Rightarrow> nat) \<Rightarrow> int list \<Rightarrow> traversal \<Rightarrow> bool" where
  "traversalInv ts getKey uzl s =
     (map fst (snd s) = uzl \<and> distinct (map addr (fst s)) \<and>
      (\<forall>y \<in> addr ` set (fst s). \<forall>x. ancestorAt ts x y \<longrightarrow> x \<notin> addr ` set (fst s)) \<and>
      (\<forall>z m. map_of (snd s) z = Some m \<longrightarrow> mapInv ts getKey (addr ` set (fst s)) z m))"

text \<open>A view of the whole world, and the four tiles of level 1.\<close>

definition worldView :: "unit ViewIntersection" where
  "worldView = updateFrustum (\<lambda>a b. ())
     (ViewIntersection_new () exampleCamera
        \<lparr>mapView_geoBox = Some (box (-180) (-90) 180 90), mapView_viewportHeight = 512,
         mapView_projectionType = Planar\<rparr> False False) None"

definition childAt :: "nat \<Rightarrow> nat \<Rightarrow> nat \<Rightarrow> TileKeyEntry" where
  "childAt r c l = \<lparr>tileKey = \<lparr>row = r, column = c, level = l\<rparr>, area = Finite 1, offset = 0,
     minElevation = None, maxElevation = None, distance = 1\<rparr>"

definition level1Tiles :: TileKeyEntries where
  "level1Tiles = [(2, childAt 0 0 1), (11, childAt 0 1 1), (7, childAt 1 0 1), (37, childAt 1 1 1)]"

text \<open>The example view with mixed LOD enabled, at a given viewport height.\<close>

definition mixedView :: "real \<Rightarrow> unit ViewIntersection" where
  "mixedView viewportHeight = updateFrustum (\<lambda>a b. ())
     (ViewIntersection_new () exampleCamera
        \<lparr>mapView_geoBox = Some (box 10 10 20 20), mapView_viewportHeight = viewportHeight,
         mapView_projectionType = Planar\<rparr> False True) None"

text \<open>The entry \<open>compute\<close> builds for the tile of level 2 that holds the example view.\<close>

definition child22 :: TileKeyEntry where
  "child22 = \<lparr>tileKey = \<lparr>row = 2, column = 2, level = 2\<rparr>, area = Finite 1, offset = 0,
     minElevation = None, maxElevation = None, distance = 1\<rparr>"

section \<open>Evaluating the examples\<close>

lemma exampleView_eq:
  "exampleView = \<lparr>m_viewProjectionMatrix = (), m_rootTileKeys = [rootEntry],
     m_tileKeyEntries = [], m_worldBox = Some (box 10 10 20 20), m_camera = exampleCamera,
     mapView = \<lparr>mapView_geoBox = Some (box 10 10 20 20), mapView_viewportHeight = 512,
       mapView_projectionType = Planar\<rparr>,
     m_tileWrappingEnabled = False, m_enableMixedLod = False\<rparr>"
  by (simp add: exampleView_def freshView_def updateFrustum_def ViewIntersection_new_def
      computeRequiredInitialRootTileKeys_def Let_def rootEntry_def)

lemmas eval_defs = visitTile_def levelSource_def rootTileKey_def Let_def quadTreeScheme_def
  visitChild_def getGeoBox_def geoBoxesIntersect_def west_def east_def south_def north_def
  box_def MaxError_def rootEntry_def

text \<open>
  Zoom level 1 over the example view: the root is subdivided, and of its four children
  only the north-east one meets the world box.
\<close>

lemma compute_example:
  "compute pairKey exampleView quadTreeScheme ers [1] [levelSource] =
     Some (Inr (exampleView\<lparr>m_tileKeyEntries := [(1, [(37, child11)])]\<rparr>,
                \<lparr>tileKeyEntries = [(1, [(37, child11)])], calculationFinal = True\<rparr>))"
  apply (simp add: compute_def exampleView_eq Let_def traverse_def Set_new_def seedEntries_def)
  apply (subst while_option_unfold)
  apply (simp add: eval_defs)
  apply (subst while_option_unfold)
  apply (simp add: eval_defs)
  apply (subst while_option_unfold)
  apply (simp add: child11_def rootEntry_def rootTileKey_def box_def pairKey_def
      prod_encode_def triangle_def)
  done

section \<open>The flag calculationFinal\<close>

text \<open>
  C10. Whenever \<open>compute\<close> returns, the \<open>calculationFinal\<close> flag of its result is
  true, whatever the elevation range source is: the flag is set to true once and no path
  changes it.
\<close>

theorem compute_calculationFinal:
  assumes "compute getKeyForTileKeyAndOffset this tilingScheme elevationRangeSource
             zoomLevels dataSources = Some (Inr (this', r))"
  shows "calculationFinal r = True"
  using assms
  by (auto simp: compute_def Let_def split: option.splits if_splits)

text \<open>
  The example with an elevation range source whose tiling scheme is the one in use.
\<close>

theorem compute_calculationFinal_witness:
  "ers_getTilingScheme \<lparr>ers_getTilingScheme = 1\<rparr> = scheme_id quadTreeScheme \<and>
   compute pairKey exampleView quadTreeScheme (Some \<lparr>ers_getTilingScheme = 1\<rparr>) [1]
       [levelSource] =
     Some (Inr (exampleView\<lparr>m_tileKeyEntries := [(1, [(37, child11)])]\<rparr>,
                \<lparr>tileKeyEntries = [(1, [(37, child11)])], calculationFinal = True\<rparr>)) \<and>
   calculationFinal \<lparr>tileKeyEntries = [(1, [(37, child11)])], calculationFinal = True\<rparr> = True"
proof -
  have h: "compute pairKey exampleView quadTreeScheme (Some \<lparr>ers_getTilingScheme = 1\<rparr>) [1]
      [levelSource] =
     Some (Inr (exampleView\<lparr>m_tileKeyEntries := [(1, [(37, child11)])]\<rparr>,
                \<lparr>tileKeyEntries = [(1, [(37, child11)])], calculationFinal = True\<rparr>))"
    by (rule compute_example)
  show ?thesis
    using h compute_calculationFinal [OF h] by (simp add: quadTreeScheme_def)
qed

section \<open>The GeoBox intersection test\<close>

lemmas box_defs = geoBoxesIntersect_def west_def east_def south_def north_def box_def
  MaxError_def


text \<open>The exact test is the test on doubles with nothing rounded.\<close>

lemma geoBoxesIntersect_exact:
  "geoBoxesIntersect a b = geoBoxesIntersectFl (\<lambda>x. x) MaxError a b"
  by (simp add: geoBoxesIntersect_def geoBoxesIntersectFl_def)






text \<open>
  C5 fails on the code: the west edge is compared with \<open><\<close> where the south edge is
  compared with \<open>\<le>\<close>. The first pair of boxes overlaps by exactly the epsilon in
  longitude and does not intersect; with longitude and latitude exchanged in both
  boxes, it does.
\<close>

theorem geoBoxesIntersect_transpose_differs:
  "\<not> geoBoxesIntersect (box 0 0 10 10) (box (-10) (-10) (1 / 10 ^ 7) 10) \<and>
   geoBoxesIntersect (transposeBox (box 0 0 10 10))
     (transposeBox (box (-10) (-10) (1 / 10 ^ 7) 10))"
  by (simp add: box_defs transposeBox_def)

section \<open>An undefined or degenerate world box\<close>

lemma degenerateView_eq:
  "degenerateView = \<lparr>m_viewProjectionMatrix = (), m_rootTileKeys = [rootEntry],
     m_tileKeyEntries = [],
     m_worldBox = Some \<lparr>southWest = \<lparr>latitude = 0, longitude = 0, altitude = Some 0\<rparr>,
                         northEast = \<lparr>latitude = 0, longitude = 0, altitude = Some 0\<rparr>\<rparr>,
     m_camera = exampleCamera,
     mapView = \<lparr>mapView_geoBox = None, mapView_viewportHeight = 512,
       mapView_projectionType = Planar\<rparr>,
     m_tileWrappingEnabled = False, m_enableMixedLod = False\<rparr>"
  by (simp add: degenerateView_def updateFrustum_def ViewIntersection_new_def
      computeRequiredInitialRootTileKeys_def Let_def rootEntry_def)

text \<open>
  C2, as stated, fails for the degenerate box: \<open>updateFrustum\<close> turns an undefined
  \<open>mapView.geoBox\<close> into the zero box at the origin, which \<open>compute\<close> does not
  short-cut. The maps are created and seeded, and the map of zoom level 0 comes back
  with the root entry in it.
\<close>

theorem compute_degenerate_worldBox_keeps_root:
  "m_worldBox degenerateView =
     Some \<lparr>southWest = \<lparr>latitude = 0, longitude = 0, altitude = Some 0\<rparr>,
           northEast = \<lparr>latitude = 0, longitude = 0, altitude = Some 0\<rparr>\<rparr> \<and>
   compute pairKey degenerateView quadTreeScheme None [0] [levelSource] =
     Some (Inr (degenerateView\<lparr>m_tileKeyEntries := [(0, [(0, rootEntry)])]\<rparr>,
                \<lparr>tileKeyEntries = [(0, [(0, rootEntry)])], calculationFinal = True\<rparr>))"
  apply (simp add: compute_def degenerateView_eq Let_def traverse_def Set_new_def
      seedEntries_def)
  apply (subst while_option_unfold)
  apply (simp add: eval_defs)
  apply (subst while_option_unfold)
  apply (simp add: rootEntry_def rootTileKey_def pairKey_def prod_encode_def triangle_def)
  done

text \<open>
  C2, amended. Whenever the world box is undefined, \<open>compute\<close> returns at once: the
  returned map has no entry for any zoom level, and \<open>calculationFinal\<close> is true.
\<close>

theorem compute_undefined_worldBox:
  assumes "m_worldBox this = None"
  shows "compute getKeyForTileKeyAndOffset this tilingScheme elevationRangeSource zoomLevels
           dataSources =
         Some (Inr (this\<lparr>m_tileKeyEntries := []\<rparr>,
                    \<lparr>tileKeyEntries = [], calculationFinal = True\<rparr>))"
  using assms by (simp add: compute_def)

text \<open>The view as constructed, before any \<open>updateFrustum\<close>.\<close>

theorem compute_undefined_worldBox_witness:
  "m_worldBox freshView = None \<and>
   compute pairKey freshView quadTreeScheme None [0, 1] [levelSource, levelSource] =
     Some (Inr (freshView\<lparr>m_tileKeyEntries := []\<rparr>,
                \<lparr>tileKeyEntries = [], calculationFinal = True\<rparr>))"
proof -
  have h: "m_worldBox freshView = None"
    by (simp add: freshView_def ViewIntersection_new_def)
  show ?thesis
    using h compute_undefined_worldBox [OF h] by simp
qed

section \<open>Calling compute twice\<close>

lemma compute_state:
  assumes "compute getKey this ts ers zls dss = Some (Inr (this', r))"
  shows "this' = this\<lparr>m_tileKeyEntries := tileKeyEntries r\<rparr>"
  using assms by (auto simp: compute_def Let_def split: option.splits if_splits)

text \<open>
  C9. A call of \<open>compute\<close> that returns leaves the object in a state from which the
  same call returns the same maps again: the first thing \<open>compute\<close> does is to clear
  the maps the previous call filled, and it reads nothing else that it writes.
\<close>

theorem compute_twice:
  assumes "compute getKeyForTileKeyAndOffset this tilingScheme elevationRangeSource zoomLevels
             dataSources = Some (Inr (this', r))"
  shows "compute getKeyForTileKeyAndOffset this' tilingScheme elevationRangeSource zoomLevels
             dataSources = Some (Inr (this', r))"
proof -
  have s: "this' = this\<lparr>m_tileKeyEntries := tileKeyEntries r\<rparr>"
    using assms by (rule compute_state)
  have "compute getKeyForTileKeyAndOffset this' tilingScheme elevationRangeSource zoomLevels
             dataSources =
        compute getKeyForTileKeyAndOffset this tilingScheme elevationRangeSource zoomLevels
             dataSources"
    unfolding s by (simp add: compute_def)
  then show ?thesis using assms by simp
qed

theorem compute_twice_witness:
  "compute pairKey exampleView quadTreeScheme None [1] [levelSource] =
     Some (Inr (exampleView\<lparr>m_tileKeyEntries := [(1, [(37, child11)])]\<rparr>,
                \<lparr>tileKeyEntries = [(1, [(37, child11)])], calculationFinal = True\<rparr>)) \<and>
   compute pairKey (exampleView\<lparr>m_tileKeyEntries := [(1, [(37, child11)])]\<rparr>) quadTreeScheme
       None [1] [levelSource] =
     Some (Inr (exampleView\<lparr>m_tileKeyEntries := [(1, [(37, child11)])]\<rparr>,
                \<lparr>tileKeyEntries = [(1, [(37, child11)])], calculationFinal = True\<rparr>))"
proof -
  have h: "compute pairKey exampleView quadTreeScheme None [1] [levelSource] =
     Some (Inr (exampleView\<lparr>m_tileKeyEntries := [(1, [(37, child11)])]\<rparr>,
                \<lparr>tileKeyEntries = [(1, [(37, child11)])], calculationFinal = True\<rparr>))"
    by (rule compute_example)
  show ?thesis
    using h compute_twice [OF h] by simp
qed

section \<open>Lists, sets and maps of zoom levels\<close>

lemma Set_new_aux:
  "distinct s \<Longrightarrow>
   distinct (foldl (\<lambda>s x. if x \<in> set s then s else s @ [x]) s xs) \<and>
   set (foldl (\<lambda>s x. if x \<in> set s then s else s @ [x]) s xs) = set s \<union> set xs"
  by (induction xs arbitrary: s) auto

lemma distinct_Set_new: "distinct (Set_new xs)"
  using Set_new_aux [of "[]" xs] by (simp add: Set_new_def)

lemma set_Set_new: "set (Set_new xs) = set xs"
  using Set_new_aux [of "[]" xs] by (simp add: Set_new_def)

lemma update_fresh: "k \<notin> fst ` set al \<Longrightarrow> AList.update k v al = al @ [(k, v)]"
  by (induction al) auto

lemma foldl_update_fresh:
  "distinct zs \<Longrightarrow> set zs \<inter> fst ` set m = {} \<Longrightarrow>
   foldl (\<lambda>m z. AList.update z v m) m zs = m @ map (\<lambda>z. (z, v)) zs"
proof (induction zs arbitrary: m)
  case Nil
  then show ?case by simp
next
  case (Cons z zs)
  have "AList.update z v m = m @ [(z, v)]"
    using Cons.prems by (intro update_fresh) auto
  moreover have "foldl (\<lambda>m z. AList.update z v m) (m @ [(z, v)]) zs =
      (m @ [(z, v)]) @ map (\<lambda>z. (z, v)) zs"
    using Cons.prems by (intro Cons.IH) auto
  ultimately show ?case by simp
qed

lemma map_entry_tabulate:
  "distinct ys \<Longrightarrow>
   AList.map_entry z f (map (\<lambda>y. (y, g y)) ys) =
   map (\<lambda>y. (y, if y = z then f (g y) else g y)) ys"
  by (induction ys) auto

lemma foldl_map_entry_tabulate:
  "distinct ys \<Longrightarrow> distinct zs \<Longrightarrow>
   foldl (\<lambda>m z. AList.map_entry z (f z) m) (map (\<lambda>y. (y, g y)) ys) zs =
   map (\<lambda>y. (y, if y \<in> set zs then f y (g y) else g y)) ys"
proof (induction zs arbitrary: g)
  case Nil
  then show ?case by simp
next
  case (Cons z zs)
  have "foldl (\<lambda>m z. AList.map_entry z (f z) m)
          (map (\<lambda>y. (y, if y = z then f z (g y) else g y)) ys) zs =
        map (\<lambda>y. (y, if y \<in> set zs then f y (if y = z then f z (g y) else g y)
                        else (if y = z then f z (g y) else g y))) ys"
    using Cons.prems by (intro Cons.IH) auto
  then show ?case
    using Cons.prems by (auto simp: map_entry_tabulate)
qed

text \<open>Seeding one root: every unique zoom level maps the root's key to its entry.\<close>

lemma seedEntries_root:
  assumes "distinct zs"
  shows "seedEntries getKey [e] zs =
     map (\<lambda>z. (z, [(getKey (tileKey e) (offset e),
        \<lparr>tileKey = tileKey e, area = Infinity, offset = offset e,
         minElevation = minElevation e, maxElevation = maxElevation e, distance = 0\<rparr>)])) zs"
proof -
  let ?k = "getKey (tileKey e) (offset e)"
  let ?v = "\<lparr>tileKey = tileKey e, area = Infinity, offset = offset e,
         minElevation = minElevation e, maxElevation = maxElevation e, distance = 0\<rparr>"
  have A: "foldl (\<lambda>m z. AList.update z [] m) [] zs = map (\<lambda>z. (z, [])) zs"
    using foldl_update_fresh [of zs "[]" "[]"] assms by simp
  have B: "foldl (\<lambda>m z. AList.map_entry z (AList.update ?k ?v) m) (map (\<lambda>z. (z, [])) zs) zs =
      map (\<lambda>z. (z, [(?k, ?v)])) zs"
    using foldl_map_entry_tabulate [of zs zs "\<lambda>_. AList.update ?k ?v" "\<lambda>_. []"] assms
    by simp
  show ?thesis
    by (simp add: seedEntries_def Let_def A B)
qed

lemma seedEntries_rootEntry:
  "seedEntries getKey [rootEntry] (Set_new zoomLevels) = rootOnly getKey zoomLevels"
  by (simp add: seedEntries_root distinct_Set_new rootOnly_def) (simp add: rootEntry_def)

section \<open>The state after updateFrustum\<close>

lemma updateFrustum_roots:
  "m_rootTileKeys (updateFrustum mul this pmo) = [rootEntry]"
  by (simp add: updateFrustum_def computeRequiredInitialRootTileKeys_def Let_def rootEntry_def
      split: option.splits)

lemma updateFrustum_worldBox:
  "m_worldBox (updateFrustum mul this pmo) \<noteq> None"
  by (simp add: updateFrustum_def computeRequiredInitialRootTileKeys_def Let_def
      split: option.splits)

section \<open>Root seeding\<close>

text \<open>
  C8. With wraparound disabled, or with a projection that is not planar,
  \<open>updateFrustum\<close> seeds exactly one root entry: the tile of level 0 at offset 0, with
  infinite area and both elevations 0. From then on, when the viewport height is not 0
  and no data source asks to subdivide the root tile, \<open>compute\<close> returns, and the map of
  every requested zoom level holds that root entry and nothing else.
\<close>

theorem root_seeding:
  assumes wrap: "mapView_projectionType (mapView this0) \<noteq> Planar \<or>
                 \<not> m_tileWrappingEnabled this0"
    and upd: "this = updateFrustum multiplyMatrices this0 projectionMatrixOverride"
    and height: "mapView_viewportHeight (mapView this) \<noteq> 0"
    and nosub: "\<not> some_shouldSubdivide dataSources zoomLevels rootTileKey"
  shows "m_rootTileKeys this = [rootEntry] \<and>
         level (tileKey rootEntry) = 0 \<and> offset rootEntry = 0 \<and>
         area rootEntry = Infinity \<and>
         minElevation rootEntry = Some 0 \<and> maxElevation rootEntry = Some 0 \<and>
         compute getKeyForTileKeyAndOffset this tilingScheme elevationRangeSource zoomLevels
           dataSources =
         Some (Inr (this\<lparr>m_tileKeyEntries := rootOnly getKeyForTileKeyAndOffset zoomLevels\<rparr>,
                    \<lparr>tileKeyEntries = rootOnly getKeyForTileKeyAndOffset zoomLevels,
                     calculationFinal = True\<rparr>))"
proof -
  have roots: "m_rootTileKeys this = [rootEntry]"
    using wrap unfolding upd
    by (auto simp: updateFrustum_def computeRequiredInitialRootTileKeys_def Let_def rootEntry_def
        split: option.splits)
  obtain worldBox where wb: "m_worldBox this = Some worldBox"
    using updateFrustum_worldBox [of multiplyMatrices this0 projectionMatrixOverride] upd
    by auto
  have step: "visitTile getKeyForTileKeyAndOffset mixed tilingScheme zoomLevels dataSources target
      uzl worldBox ([rootEntry], m) = ([], m)" for mixed target uzl m
    using nosub by (simp add: visitTile_def Let_def rootEntry_def)
  have "traverse getKeyForTileKeyAndOffset mixed tilingScheme zoomLevels dataSources target
      uzl worldBox ([rootEntry], m) = Some ([], m)" for mixed target uzl m
    unfolding traverse_def
    by (subst while_option_unfold, simp add: step, subst while_option_unfold, simp)
  then have "compute getKeyForTileKeyAndOffset this tilingScheme elevationRangeSource zoomLevels
           dataSources =
         Some (Inr (this\<lparr>m_tileKeyEntries := rootOnly getKeyForTileKeyAndOffset zoomLevels\<rparr>,
                    \<lparr>tileKeyEntries = rootOnly getKeyForTileKeyAndOffset zoomLevels,
                     calculationFinal = True\<rparr>))"
    using roots wb height by (simp add: compute_def Let_def seedEntries_rootEntry)
  then show ?thesis
    using roots by (simp add: rootEntry_def rootTileKey_def)
qed

text \<open>
  The example view has wraparound disabled; zoom levels 0 and -1 with a data source
  each, neither of which subdivides the root.
\<close>

theorem root_seeding_witness:
  "\<not> m_tileWrappingEnabled freshView \<and>
   mapView_viewportHeight (mapView exampleView) \<noteq> 0 \<and>
   \<not> some_shouldSubdivide [levelSource, levelSource] [0, -1] rootTileKey \<and>
   m_rootTileKeys exampleView = [rootEntry] \<and>
   compute pairKey exampleView quadTreeScheme None [0, -1] [levelSource, levelSource] =
     Some (Inr (exampleView\<lparr>m_tileKeyEntries :=
                  [(0, [(0, rootEntry)]), (-1, [(0, rootEntry)])]\<rparr>,
                \<lparr>tileKeyEntries = [(0, [(0, rootEntry)]), (-1, [(0, rootEntry)])],
                 calculationFinal = True\<rparr>))"
proof -
  have off: "\<not> m_tileWrappingEnabled freshView"
    by (simp add: freshView_def ViewIntersection_new_def)
  then have wrap: "mapView_projectionType (mapView freshView) \<noteq> Planar \<or>
      \<not> m_tileWrappingEnabled freshView"
    by simp
  have height: "mapView_viewportHeight (mapView exampleView) \<noteq> 0"
    by (simp add: exampleView_eq)
  have nosub: "\<not> some_shouldSubdivide [levelSource, levelSource] [0, -1] rootTileKey"
    by (simp add: levelSource_def rootTileKey_def)
  have keys: "rootOnly pairKey [0, -1] = [(0, [(0, rootEntry)]), (-1, [(0, rootEntry)])]"
    by (simp add: rootOnly_def Set_new_def pairKey_def rootTileKey_def prod_encode_def
        triangle_def)
  show ?thesis
    using root_seeding [OF wrap exampleView_def height nosub, of pairKey quadTreeScheme None]
      off height nosub
    by (simp add: keys)
qed

section \<open>Area and distance of a child entry\<close>

text \<open>
  C3 fails on the code: the entry of a surviving child gets the constants 1 and 1 for
  its area and its distance. In the example the north-east tile of level 1 survives, and
  its entry in the returned map has area 1 and distance 1; the view-projection matrix is
  not read.
\<close>

theorem child_area_distance_constant:
  "compute pairKey exampleView quadTreeScheme None [1] [levelSource] =
     Some (Inr (exampleView\<lparr>m_tileKeyEntries := [(1, [(37, child11)])]\<rparr>,
                \<lparr>tileKeyEntries = [(1, [(37, child11)])], calculationFinal = True\<rparr>)) \<and>
   area child11 = Finite 1 \<and> distance child11 = 1"
  by (simp add: compute_example) (simp add: child11_def)

section \<open>Pruning\<close>

lemma entriesOf_Nil: "entriesOf [] = {}"
  by (simp add: entriesOf_def)

lemma entriesOf_Cons: "entriesOf ((z, m) # M) = snd ` set m \<union> entriesOf M"
proof -
  have "e \<in> entriesOf ((z, m) # M) \<longleftrightarrow> e \<in> snd ` set m \<union> entriesOf M" for e
  proof -
    have "e \<in> snd ` set m \<longleftrightarrow> (\<exists>k. (k, e) \<in> set m)"
      by force
    then show ?thesis
      unfolding entriesOf_def by auto
  qed
  then show ?thesis by blast
qed

lemma entriesOf_append: "entriesOf (M @ N) = entriesOf M \<union> entriesOf N"
  by (auto simp: entriesOf_def)

lemma entriesOf_map_entry:
  assumes "\<And>m. snd ` set (f m) \<subseteq> snd ` set m \<union> A"
  shows "entriesOf (AList.map_entry z f M) \<subseteq> entriesOf M \<union> A"
proof (induction M)
  case Nil
  then show ?case by simp
next
  case (Cons a M)
  obtain z' m where a: "a = (z', m)" by (cases a)
  show ?case
    using Cons.IH assms [of m] by (auto simp: a entriesOf_Cons)
qed

lemma entriesOf_foldl_map_entry:
  assumes "\<And>z m. snd ` set (f z m) \<subseteq> snd ` set m \<union> A"
  shows "entriesOf (foldl (\<lambda>M z. if P z then M else AList.map_entry z (f z) M) M zs)
           \<subseteq> entriesOf M \<union> A"
proof (induction zs arbitrary: M)
  case Nil
  then show ?case by simp
next
  case (Cons z zs)
  have "entriesOf (if P z then M else AList.map_entry z (f z) M) \<subseteq> entriesOf M \<union> A"
    using entriesOf_map_entry [of "f z" A z M] assms by auto
  with Cons.IH [of "if P z then M else AList.map_entry z (f z) M"] show ?case
    by auto
qed

lemma snd_set_delete: "snd ` set (AList.delete k m) \<subseteq> snd ` set m \<union> {}"
  by (auto simp: AList.delete_eq)

lemma snd_set_update: "snd ` set (AList.update k v m) \<subseteq> snd ` set m \<union> {v}"
  by (induction m) auto

lemma visitChild_materialized:
  "materialized (visitChild getKey ts uzl wb e s c)
     \<subseteq> materialized s \<union> {x. survives ts wb x}"
proof (cases "geoBoxesIntersect wb (getGeoBox ts c (offset e))")
  case False
  then show ?thesis by (simp add: visitChild_def Let_def)
next
  case True
  let ?x = "\<lparr>tileKey = c, area = Finite 1, offset = offset e,
      minElevation = altitude (southWest (getGeoBox ts c (offset e))),
      maxElevation = altitude (northEast (getGeoBox ts c (offset e))), distance = 1\<rparr>"
  have sx: "survives ts wb ?x"
    using True by (simp add: survives_def)
  have "entriesOf (foldl (\<lambda>M z. if int (level c) > z then M
            else AList.map_entry z (AList.update (getKey c (offset e)) ?x) M) (snd s) uzl)
          \<subseteq> entriesOf (snd s) \<union> {?x}"
    by (rule entriesOf_foldl_map_entry) (rule snd_set_update)
  then show ?thesis
    using True sx by (auto simp: visitChild_def Let_def materialized_def)
qed

lemma foldl_visitChild_materialized:
  "materialized (foldl (visitChild getKey ts uzl wb e) s cs)
     \<subseteq> materialized s \<union> {x. survives ts wb x}"
proof (induction cs arbitrary: s)
  case Nil
  then show ?case by simp
next
  case (Cons c cs)
  show ?case
    using Cons.IH [of "visitChild getKey ts uzl wb e s c"]
      visitChild_materialized [where s = s and c = c and wb = wb and ts = ts and e = e
        and getKey = getKey and uzl = uzl]
    by auto
qed

lemma visitTile_materialized:
  "materialized (visitTile getKey mixed ts zls dss target uzl wb s)
     \<subseteq> materialized s \<union> {x. survives ts wb x}"
proof (cases "fst s")
  case Nil
  then show ?thesis by (simp add: visitTile_def)
next
  case (Cons p rest)
  let ?M1 = "foldl (\<lambda>m z. if int (level (tileKey p)) \<ge> z then m
               else AList.map_entry z (AList.delete (getKey (tileKey p) (offset p))) m)
             (snd s) uzl"
  have del: "entriesOf ?M1 \<subseteq> entriesOf (snd s) \<union> {}"
    by (rule entriesOf_foldl_map_entry) (rule snd_set_delete)
  have pop: "materialized (rest, snd s) \<subseteq> materialized s"
    using Cons by (auto simp: materialized_def)
  have "materialized (rest, ?M1) \<subseteq> materialized s"
    using del Cons by (auto simp: materialized_def)
  then have "materialized (foldl (visitChild getKey ts uzl wb p) (rest, ?M1)
        (scheme_getSubTileKeys ts (tileKey p))) \<subseteq> materialized s \<union> {x. survives ts wb x}"
    using foldl_visitChild_materialized [where s = "(rest, ?M1)" and wb = wb and ts = ts]
    by blast
  then show ?thesis
    using pop Cons by (auto simp: visitTile_def Let_def)
qed

lemma funpow_visitTile_materialized:
  "materialized ((visitTile getKey mixed ts zls dss target uzl wb ^^ n) s)
     \<subseteq> materialized s \<union> {x. survives ts wb x}"
proof (induction n)
  case 0
  then show ?case by simp
next
  case (Suc n)
  show ?case
    using Suc.IH
      visitTile_materialized [where s = "(visitTile getKey mixed ts zls dss target uzl wb ^^ n) s"
        and getKey = getKey and mixed = mixed and ts = ts and zls = zls and dss = dss
        and target = target and uzl = uzl and wb = wb]
    by auto
qed

lemma entriesOf_seed_empty:
  "entriesOf (foldl (\<lambda>m z. AList.update z [] m) M zs) \<subseteq> entriesOf M"
proof (induction zs arbitrary: M)
  case Nil
  then show ?case by simp
next
  case (Cons z zs)
  have "set (AList.update z [] M) \<subseteq> insert (z, []) (set M)"
    by (induction M) auto
  then have "entriesOf (AList.update z [] M) \<subseteq> entriesOf M"
    unfolding entriesOf_def by fastforce
  with Cons.IH [of "AList.update z [] M"] show ?case by auto
qed

lemma entriesOf_seedEntries:
  "entriesOf (seedEntries getKey roots uzl) \<subseteq> seededEntry ` set roots"
proof -
  have step: "entriesOf (foldl (\<lambda>m z. AList.map_entry z
        (AList.update (getKey (tileKey item) (offset item)) (seededEntry item)) m) M uzl)
      \<subseteq> entriesOf M \<union> {seededEntry item}" for item M
    using entriesOf_foldl_map_entry [where P = "\<lambda>_. False" and A = "{seededEntry item}"
        and f = "\<lambda>z. AList.update (getKey (tileKey item) (offset item)) (seededEntry item)"
        and M = M and zs = uzl, OF snd_set_update]
    by simp
  have "entriesOf (foldl (\<lambda>m item. foldl (\<lambda>m z. AList.map_entry z
        (AList.update (getKey (tileKey item) (offset item)) (seededEntry item)) m) m uzl) M roots)
      \<subseteq> entriesOf M \<union> seededEntry ` set roots" for M
  proof (induction roots arbitrary: M)
    case Nil
    then show ?case by simp
  next
    case (Cons item roots)
    show ?case
      using Cons.IH [of "foldl (\<lambda>m z. AList.map_entry z
        (AList.update (getKey (tileKey item) (offset item)) (seededEntry item)) m) M uzl"]
        step [of item M]
      by auto
  qed
  from this [of "foldl (\<lambda>m z. AList.update z [] m) [] uzl"]
    entriesOf_seed_empty [of "[]" uzl]
  show ?thesis
    by (auto simp: seedEntries_def Let_def seededEntry_def entriesOf_Nil)
qed

text \<open>
  C7. A child whose shifted geo-box does not meet the world box under the epsilon rule
  leaves the traversal as it is: nothing is pushed and no map changes. So whatever the
  traversal holds after any number of iterations, on the stack or in a map, was there at
  the start or passed the test; and every entry of a map that \<open>compute\<close> returns is
  a root entry or passed the test.
\<close>

theorem pruned_children_not_materialized:
  "(\<not> geoBoxesIntersect worldBox (getGeoBox tilingScheme childTileKey (offset tileEntry)) \<longrightarrow>
      visitChild getKeyForTileKeyAndOffset tilingScheme uniqueZoomLevels worldBox tileEntry s
        childTileKey = s) \<and>
   (x \<in> materialized ((visitTile getKeyForTileKeyAndOffset enableMixedLod tilingScheme
          zoomLevels dataSources targetTileArea uniqueZoomLevels worldBox ^^ n) s) \<longrightarrow>
      x \<in> materialized s \<or> survives tilingScheme worldBox x) \<and>
   (compute getKeyForTileKeyAndOffset this tilingScheme elevationRangeSource zoomLevels
        dataSources = Some (Inr (this', r)) \<and>
    m_worldBox this = Some worldBox \<and> x \<in> entriesOf (tileKeyEntries r) \<longrightarrow>
      x \<in> set (m_rootTileKeys this) \<or> x \<in> seededEntry ` set (m_rootTileKeys this) \<or>
      survives tilingScheme worldBox x)"
proof (intro conjI impI)
  assume "\<not> geoBoxesIntersect worldBox (getGeoBox tilingScheme childTileKey (offset tileEntry))"
  then show "visitChild getKeyForTileKeyAndOffset tilingScheme uniqueZoomLevels worldBox
      tileEntry s childTileKey = s"
    by (simp add: visitChild_def Let_def)
next
  assume "x \<in> materialized ((visitTile getKeyForTileKeyAndOffset enableMixedLod tilingScheme
          zoomLevels dataSources targetTileArea uniqueZoomLevels worldBox ^^ n) s)"
  then show "x \<in> materialized s \<or> survives tilingScheme worldBox x"
    using funpow_visitTile_materialized by blast
next
  assume a: "compute getKeyForTileKeyAndOffset this tilingScheme elevationRangeSource zoomLevels
        dataSources = Some (Inr (this', r)) \<and>
    m_worldBox this = Some worldBox \<and> x \<in> entriesOf (tileKeyEntries r)"
  let ?uzl = "Set_new zoomLevels"
  let ?c = "visitTile getKeyForTileKeyAndOffset (m_enableMixedLod this) tilingScheme
      zoomLevels dataSources ((256 / mapView_viewportHeight (mapView this)) ^ 2) ?uzl worldBox"
  let ?s0 = "(rev (m_rootTileKeys this),
      seedEntries getKeyForTileKeyAndOffset (m_rootTileKeys this) ?uzl)"
  from a obtain t where t: "while_option (\<lambda>s. fst s \<noteq> []) ?c ?s0 = Some t"
    and r: "tileKeyEntries r = snd t"
    by (auto simp: compute_def Let_def traverse_def split: option.splits if_splits)
  from while_option_stop2 [OF t] obtain k where k: "t = (?c ^^ k) ?s0" and "\<not> fst t \<noteq> []"
    by blast
  have "x \<in> materialized t"
    using a r by (simp add: materialized_def)
  then have "x \<in> materialized ?s0 \<or> survives tilingScheme worldBox x"
    unfolding k using funpow_visitTile_materialized by blast
  moreover have "materialized ?s0 \<subseteq> set (m_rootTileKeys this) \<union>
      seededEntry ` set (m_rootTileKeys this)"
    using entriesOf_seedEntries [where roots = "m_rootTileKeys this"]
    by (auto simp: materialized_def)
  ultimately show "x \<in> set (m_rootTileKeys this) \<or>
      x \<in> seededEntry ` set (m_rootTileKeys this) \<or> survives tilingScheme worldBox x"
    by blast
qed


text \<open>
  The example: the south-west tile of level 1 fails the test and changes nothing; the
  north-east tile passes it and is what the map of zoom level 1 holds.
\<close>

lemma visitTile_example:
  "visitTile pairKey False quadTreeScheme [1] [levelSource] target [1]
     (box 10 10 20 20) ([rootEntry], [(1, [(0, rootEntry)])]) =
   ([child11], [(1, [(37, child11)])])"
  apply (simp add: eval_defs)
  apply (simp add: child11_def pairKey_def prod_encode_def triangle_def)
  done

theorem pruned_children_not_materialized_witness:
  "\<not> geoBoxesIntersect (box 10 10 20 20)
       (getGeoBox quadTreeScheme \<lparr>row = 0, column = 0, level = 1\<rparr> (offset rootEntry)) \<and>
   visitChild pairKey quadTreeScheme [1] (box 10 10 20 20) rootEntry
       ([rootEntry], [(1, [(0, rootEntry)])]) \<lparr>row = 0, column = 0, level = 1\<rparr> =
     ([rootEntry], [(1, [(0, rootEntry)])]) \<and>
   child11 \<in> materialized ((visitTile pairKey False quadTreeScheme [1] [levelSource]
       ((256 / 512) ^ 2) [1] (box 10 10 20 20) ^^ 1) ([rootEntry], [(1, [(0, rootEntry)])])) \<and>
   child11 \<notin> materialized ([rootEntry], [(1, [(0, rootEntry)])]) \<and>
   compute pairKey exampleView quadTreeScheme None [1] [levelSource] =
     Some (Inr (exampleView\<lparr>m_tileKeyEntries := [(1, [(37, child11)])]\<rparr>,
                \<lparr>tileKeyEntries = [(1, [(37, child11)])], calculationFinal = True\<rparr>)) \<and>
   m_worldBox exampleView = Some (box 10 10 20 20) \<and>
   child11 \<in> entriesOf (tileKeyEntries
     \<lparr>tileKeyEntries = [(1, [(37, child11)])], calculationFinal = True\<rparr>) \<and>
   child11 \<notin> set (m_rootTileKeys exampleView) \<and>
   child11 \<notin> seededEntry ` set (m_rootTileKeys exampleView) \<and>
   survives quadTreeScheme (box 10 10 20 20) child11"
proof -
  have h1: "\<not> geoBoxesIntersect (box 10 10 20 20)
       (getGeoBox quadTreeScheme \<lparr>row = 0, column = 0, level = 1\<rparr> (offset rootEntry))"
    by (simp add: eval_defs)
  have h2: "child11 \<in> materialized ((visitTile pairKey False quadTreeScheme [1] [levelSource]
       ((256 / 512) ^ 2) [1] (box 10 10 20 20) ^^ 1) ([rootEntry], [(1, [(0, rootEntry)])]))"
    by (simp add: visitTile_example materialized_def)
  have n2: "child11 \<notin> materialized ([rootEntry], [(1, [(0, rootEntry)])])"
    by (simp add: materialized_def entriesOf_Cons entriesOf_Nil child11_def rootEntry_def)
  have h3: "compute pairKey exampleView quadTreeScheme None [1] [levelSource] =
     Some (Inr (exampleView\<lparr>m_tileKeyEntries := [(1, [(37, child11)])]\<rparr>,
                \<lparr>tileKeyEntries = [(1, [(37, child11)])], calculationFinal = True\<rparr>))"
    by (rule compute_example)
  have h4: "m_worldBox exampleView = Some (box 10 10 20 20)"
    by (simp add: exampleView_eq)
  have h5: "child11 \<in> entriesOf (tileKeyEntries
     \<lparr>tileKeyEntries = [(1, [(37, child11)])], calculationFinal = True\<rparr>)"
    by (simp add: entriesOf_Cons)
  have n5: "child11 \<notin> set (m_rootTileKeys exampleView)"
    "child11 \<notin> seededEntry ` set (m_rootTileKeys exampleView)"
    by (simp_all add: exampleView_eq seededEntry_def child11_def rootEntry_def)
  show ?thesis
    using h1 h2 n2 h3 h4 h5 n5
      pruned_children_not_materialized [where worldBox = "box 10 10 20 20"
        and tilingScheme = quadTreeScheme
        and childTileKey = "\<lparr>row = 0, column = 0, level = 1\<rparr>"
        and tileEntry = rootEntry and getKeyForTileKeyAndOffset = pairKey
        and uniqueZoomLevels = "[1]" and s = "([rootEntry], [(1, [(0, rootEntry)])])"
        and x = child11 and enableMixedLod = False and zoomLevels = "[1]"
        and dataSources = "[levelSource]" and targetTileArea = "(256 / 512) ^ 2" and n = 1
        and this = exampleView and elevationRangeSource = None
        and this' = "exampleView\<lparr>m_tileKeyEntries := [(1, [(37, child11)])]\<rparr>"
        and r = "\<lparr>tileKeyEntries = [(1, [(37, child11)])], calculationFinal = True\<rparr>"]
    by blast
qed

section \<open>The partition invariant, proved\<close>

subsection \<open>Maps after a loop over the zoom levels\<close>

lemma map_fst_map_entry: "map fst (AList.map_entry k f al) = map fst al"
  by (induction al) auto

lemma map_fst_foldl_map_entry:
  "map fst (foldl (\<lambda>M z. if P z then M else AList.map_entry z (f z) M) M zs) = map fst M"
  by (induction zs arbitrary: M) (auto simp: map_fst_map_entry)

lemma map_of_foldl_map_entry:
  assumes "distinct zs"
  shows "map_of (foldl (\<lambda>M z. if P z then M else AList.map_entry z (f z) M) M zs) Z =
     (if Z \<in> set zs \<and> \<not> P Z then map_option (f Z) (map_of M Z) else map_of M Z)"
  using assms
proof (induction zs arbitrary: M)
  case Nil
  then show ?case by simp
next
  case (Cons z zs)
  let ?M' = "if P z then M else AList.map_entry z (f z) M"
  have M': "map_of ?M' Z =
      (if Z = z \<and> \<not> P z then map_option (f z) (map_of M z) else map_of M Z)"
    by (auto simp: map_of_map_entry split: option.splits)
  have "map_of (foldl (\<lambda>M z. if P z then M else AList.map_entry z (f z) M) ?M' zs) Z =
     (if Z \<in> set zs \<and> \<not> P Z then map_option (f Z) (map_of ?M' Z) else map_of ?M' Z)"
    using Cons.prems by (intro Cons.IH) simp
  then show ?case
    using Cons.prems unfolding M' by auto
qed

lemma set_update_subset: "set (AList.update k v al) \<subseteq> insert (k, v) (set al)"
  by (induction al) auto

lemma ids_update: "ids (AList.update k v m) \<subseteq> insert (addr v) (ids m)"
  using set_update_subset [of k v m] unfolding ids_def by force

lemma keyed_update:
  "keyed getKey m \<Longrightarrow> k = getKey (tileKey v) (offset v) \<Longrightarrow> keyed getKey (AList.update k v m)"
  using set_update_subset [of k v m] unfolding keyed_def by fastforce

lemma ids_delete:
  assumes "keyed getKey m"
  shows "ids (AList.delete (getKey (fst a) (snd a)) m) \<subseteq> ids m - {a}"
proof
  fix y assume "y \<in> ids (AList.delete (getKey (fst a) (snd a)) m)"
  then obtain k e where ke: "(k, e) \<in> set m" "k \<noteq> getKey (fst a) (snd a)" "y = addr e"
    unfolding ids_def by (auto simp: AList.delete_eq)
  then have "k = getKey (tileKey e) (offset e)"
    using assms unfolding keyed_def by auto
  with ke have "addr e \<noteq> a"
    by (auto simp: addr_def)
  with ke show "y \<in> ids m - {a}"
    unfolding ids_def by force
qed

lemma keyed_delete: "keyed getKey m \<Longrightarrow> keyed getKey (AList.delete k m)"
  unfolding keyed_def by (auto simp: AList.delete_eq)

subsection \<open>Ancestors in a tree\<close>

lemma isAncestor_level:
  assumes "treeScheme ts" "isAncestor ts a d"
  shows "level a < level d"
  using assms(2) unfolding isAncestor_def
proof (induction rule: tranclp_induct)
  case (base y)
  then show ?case using assms(1) by (auto simp: treeScheme_def)
next
  case (step y z)
  then show ?case using assms(1) by (fastforce simp: treeScheme_def)
qed

lemma isAncestor_child:
  assumes "treeScheme ts" "isChild ts p c" "isAncestor ts x c"
  shows "x = p \<or> isAncestor ts x p"
proof -
  from assms(3) have "isChild ts x c \<or> (\<exists>q. isAncestor ts x q \<and> isChild ts q c)"
    unfolding isAncestor_def by (auto elim: tranclp.cases)
  then show ?thesis
    using assms(1,2) unfolding treeScheme_def by blast
qed

lemma ancestorAt_irrefl: "treeScheme ts \<Longrightarrow> \<not> ancestorAt ts x x"
  using isAncestor_level [of ts "fst x" "fst x"] by (auto simp: ancestorAt_def)

lemma ancestorAt_trans: "ancestorAt ts x y \<Longrightarrow> ancestorAt ts y z \<Longrightarrow> ancestorAt ts x z"
  unfolding ancestorAt_def isAncestor_def by auto

lemma ancestorAt_level: "treeScheme ts \<Longrightarrow> ancestorAt ts x y \<Longrightarrow> level (fst x) < level (fst y)"
  using isAncestor_level by (auto simp: ancestorAt_def)

lemma ancestorAt_child:
  assumes "treeScheme ts" "isChild ts p c"
  shows "ancestorAt ts (p, off) (c, off)"
    and "ancestorAt ts x (c, off) \<Longrightarrow> x = (p, off) \<or> ancestorAt ts x (p, off)"
proof -
  show "ancestorAt ts (p, off) (c, off)"
    using assms(2) by (simp add: ancestorAt_def isAncestor_def tranclp.r_into_trancl)
  assume "ancestorAt ts x (c, off)"
  then show "x = (p, off) \<or> ancestorAt ts x (p, off)"
    using isAncestor_child [OF assms, of "fst x"] by (cases x) (auto simp: ancestorAt_def)
qed

subsection \<open>The loop over the children\<close>

lemma visitChild_eq:
  "visitChild getKey ts uzl wb e s c =
     (if \<not> geoBoxesIntersect wb (getGeoBox ts c (offset e)) then s
      else (childEntry ts e c # fst s,
            foldl (\<lambda>M z. if int (level c) > z then M
                else AList.map_entry z (AList.update (getKey c (offset e)) (childEntry ts e c)) M)
              (snd s) uzl))"
  unfolding visitChild_def Let_def childEntry_def by simp

lemma addr_childEntry: "addr (childEntry ts e c) = (c, offset e)"
  by (simp add: addr_def childEntry_def)

lemma visitChildren_fst:
  "addr ` set (fst (foldl (visitChild getKey ts uzl wb e) s cs))
     \<subseteq> addr ` set (fst s) \<union> (\<lambda>c. (c, offset e)) ` set cs"
proof (induction cs arbitrary: s)
  case Nil
  then show ?case by simp
next
  case (Cons c cs)
  have "addr ` set (fst (visitChild getKey ts uzl wb e s c))
      \<subseteq> insert (c, offset e) (addr ` set (fst s))"
    by (auto simp: visitChild_eq addr_childEntry)
  with Cons.IH [of "visitChild getKey ts uzl wb e s c"] show ?case
    by auto
qed

lemma visitChildren_distinct:
  assumes "distinct (map addr (fst s))" "distinct cs"
    and "\<forall>c \<in> set cs. (c, offset e) \<notin> addr ` set (fst s)"
  shows "distinct (map addr (fst (foldl (visitChild getKey ts uzl wb e) s cs)))"
  using assms
proof (induction cs arbitrary: s)
  case Nil
  then show ?case by simp
next
  case (Cons c cs)
  let ?s' = "visitChild getKey ts uzl wb e s c"
  have sub: "addr ` set (fst ?s') \<subseteq> insert (c, offset e) (addr ` set (fst s))"
    by (auto simp: visitChild_eq addr_childEntry)
  have d: "distinct (map addr (fst ?s'))"
    using Cons.prems by (auto simp: visitChild_eq addr_childEntry)
  have "\<forall>c' \<in> set cs. (c', offset e) \<notin> addr ` set (fst ?s')"
    using Cons.prems sub by auto
  with d Cons.prems have "distinct (map addr (fst (foldl (visitChild getKey ts uzl wb e) ?s' cs)))"
    by (intro Cons.IH) auto
  then show ?case by simp
qed

lemma visitChildren_keys:
  "map fst (snd (foldl (visitChild getKey ts uzl wb e) s cs)) = map fst (snd s)"
proof (induction cs arbitrary: s)
  case Nil
  then show ?case by simp
next
  case (Cons c cs)
  have "map fst (snd (visitChild getKey ts uzl wb e s c)) = map fst (snd s)"
    by (simp add: visitChild_eq map_fst_foldl_map_entry)
  with Cons.IH [of "visitChild getKey ts uzl wb e s c"] show ?case
    by simp
qed

lemma visitChild_map:
  assumes "distinct uzl" "map_of (snd (visitChild getKey ts uzl wb e s c)) Z = Some m'"
  shows "\<exists>m. map_of (snd s) Z = Some m \<and>
           ids m' \<subseteq> ids m \<union> {(c, offset e) |c'. c' = c \<and> int (level c) \<le> Z} \<and>
           (keyed getKey m \<longrightarrow> keyed getKey m')"
proof (cases "geoBoxesIntersect wb (getGeoBox ts c (offset e))")
  case False
  then show ?thesis using assms by (simp add: visitChild_eq)
next
  case True
  let ?x = "childEntry ts e c"
  let ?k = "getKey c (offset e)"
  have eq: "map_of (snd (visitChild getKey ts uzl wb e s c)) Z =
      (if Z \<in> set uzl \<and> \<not> int (level c) > Z
       then map_option (AList.update ?k ?x) (map_of (snd s) Z) else map_of (snd s) Z)"
    using True assms(1) by (simp add: visitChild_eq map_of_foldl_map_entry)
  show ?thesis
  proof (cases "Z \<in> set uzl \<and> \<not> int (level c) > Z")
    case False
    then show ?thesis using assms(2) eq by auto
  next
    case ins: True
    then obtain m where m: "map_of (snd s) Z = Some m" "m' = AList.update ?k ?x m"
      using assms(2) eq by auto
    have "ids m' \<subseteq> insert (c, offset e) (ids m)"
      using ids_update [of ?k ?x m] by (simp add: m addr_childEntry)
    moreover have "keyed getKey m \<longrightarrow> keyed getKey m'"
      unfolding m by (auto intro!: keyed_update simp: childEntry_def)
    ultimately show ?thesis
      using m ins by auto
  qed
qed

lemma visitChildren_map:
  assumes "distinct uzl"
    and "map_of (snd (foldl (visitChild getKey ts uzl wb e) s cs)) Z = Some m'"
  shows "\<exists>m. map_of (snd s) Z = Some m \<and>
           ids m' \<subseteq> ids m \<union> {(c, offset e) |c. c \<in> set cs \<and> int (level c) \<le> Z} \<and>
           (keyed getKey m \<longrightarrow> keyed getKey m')"
  using assms(2)
proof (induction cs arbitrary: s)
  case Nil
  then show ?case by simp
next
  case (Cons c cs)
  let ?s' = "visitChild getKey ts uzl wb e s c"
  from Cons.prems have "map_of (snd (foldl (visitChild getKey ts uzl wb e) ?s' cs)) Z = Some m'"
    by simp
  from Cons.IH [OF this] obtain m1 where m1: "map_of (snd ?s') Z = Some m1"
    "ids m' \<subseteq> ids m1 \<union> {(c, offset e) |c. c \<in> set cs \<and> int (level c) \<le> Z}"
    "keyed getKey m1 \<longrightarrow> keyed getKey m'"
    by blast
  from visitChild_map [OF assms(1) m1(1)] obtain m where m: "map_of (snd s) Z = Some m"
    "ids m1 \<subseteq> ids m \<union> {(c, offset e) |c'. c' = c \<and> int (level c) \<le> Z}"
    "keyed getKey m \<longrightarrow> keyed getKey m1"
    by blast
  have "ids m' \<subseteq> ids m \<union> {(c', offset e) |c'. c' \<in> set (c # cs) \<and> int (level c') \<le> Z}"
    using m1(2) m(2) by auto
  then show ?case
    using m(1,3) m1(3) by blast
qed


subsection \<open>The invariant is kept\<close>

lemma mapInv_mono: "W' \<subseteq> W \<Longrightarrow> mapInv ts getKey W z m \<Longrightarrow> mapInv ts getKey W' z m"
  unfolding mapInv_def by (meson subsetD)

lemma stack_step:
  assumes tree: "treeScheme ts"
    and old: "\<forall>y \<in> insert A W. \<forall>x. ancestorAt ts x y \<longrightarrow> x \<notin> insert A W"
    and A: "A \<notin> W"
    and C: "\<forall>c \<in> C. ancestorAt ts A c \<and> (\<forall>x. ancestorAt ts x c \<longrightarrow> x = A \<or> ancestorAt ts x A)"
    and W': "W' \<subseteq> W \<union> C"
  shows "\<forall>y \<in> W'. \<forall>x. ancestorAt ts x y \<longrightarrow> x \<notin> W'"
proof (intro ballI allI impI)
  fix y x assume y: "y \<in> W'" and xy: "ancestorAt ts x y"
  have irr: "\<not> ancestorAt ts A A" using tree by (rule ancestorAt_irrefl)
  have "x \<notin> W \<union> C"
  proof (cases "y \<in> W")
    case True
    then have "x \<notin> insert A W" using old xy by blast
    moreover have "x \<notin> C"
    proof
      assume "x \<in> C"
      then have "ancestorAt ts A y" using C xy ancestorAt_trans by blast
      then show False using old True by blast
    qed
    ultimately show ?thesis by blast
  next
    case False
    then have yC: "y \<in> C" using y W' by blast
    then consider "x = A" | "ancestorAt ts x A" using C xy by blast
    then show ?thesis
    proof cases
      case 1
      then show ?thesis using A C irr by blast
    next
      case 2
      then have "x \<notin> insert A W" using old by blast
      moreover have "x \<notin> C"
      proof
        assume "x \<in> C"
        then have "ancestorAt ts A A" using C 2 ancestorAt_trans by blast
        then show False using irr by simp
      qed
      ultimately show ?thesis by blast
    qed
  qed
  then show "x \<notin> W'" using W' by blast
qed

lemma mapInv_step:
  assumes tree: "treeScheme ts"
    and inv: "mapInv ts getKey (insert A W) z m"
    and old: "\<forall>y \<in> insert A W. \<forall>x. ancestorAt ts x y \<longrightarrow> x \<notin> insert A W"
    and A: "A \<notin> W"
    and C: "\<forall>c \<in> C. ancestorAt ts A c \<and> (\<forall>x. ancestorAt ts x c \<longrightarrow> x = A \<or> ancestorAt ts x A)"
    and W': "W' \<subseteq> W \<union> C"
    and ids: "ids m' \<subseteq> (ids m - (if int (level (fst A)) < z then {A} else {})) \<union>
                {c \<in> C. int (level (fst c)) \<le> z}"
    and keyed: "keyed getKey m'"
  shows "mapInv ts getKey W' z m'"
proof -
  have irr: "\<not> ancestorAt ts A A" using tree by (rule ancestorAt_irrefl)
  have AC: "A \<notin> C" using C irr by blast
  have i2: "\<forall>y \<in> ids m. int (level (fst y)) \<le> z \<or> level (fst y) = 0"
    and i3: "\<forall>y \<in> ids m. \<forall>x. ancestorAt ts x y \<longrightarrow> x \<notin> insert A W"
    and i4: "\<forall>y \<in> insert A W. \<forall>x. ancestorAt ts x y \<longrightarrow> int (level (fst x)) < z \<longrightarrow> x \<notin> ids m"
    and i5: "\<forall>y \<in> ids m. \<forall>x. ancestorAt ts x y \<longrightarrow> int (level (fst x)) < z \<longrightarrow> x \<notin> ids m"
    using inv unfolding mapInv_def by simp_all
  have sub: "ids m' \<subseteq> ids m \<union> C" using ids by auto
  have noBelowW: "\<not> ancestorAt ts A y" if "y \<in> W" for y using old that by blast
  have noBelowM: "\<not> ancestorAt ts A y" if "y \<in> ids m" for y using i3 that by blast
  have childNotAbove: "x \<notin> C" if "ancestorAt ts x y" "y \<in> W \<or> y \<in> ids m" for x y
  proof
    assume "x \<in> C"
    then have "ancestorAt ts A y" using C that(1) ancestorAt_trans by blast
    then show False using that(2) noBelowW noBelowM by blast
  qed
  have overA: "x \<notin> insert A W \<and> x \<notin> C \<and> (int (level (fst x)) < z \<longrightarrow> x \<notin> ids m)"
    if "ancestorAt ts x A" for x
  proof -
    have "x \<notin> C"
    proof
      assume "x \<in> C"
      then have "ancestorAt ts A A" using C that ancestorAt_trans by blast
      then show False using irr by simp
    qed
    then show ?thesis using old i4 that by blast
  qed
  have c2: "\<forall>y \<in> ids m'. int (level (fst y)) \<le> z \<or> level (fst y) = 0"
    using ids i2 by (auto split: if_splits)
  have c3: "\<forall>y \<in> ids m'. \<forall>x. ancestorAt ts x y \<longrightarrow> x \<notin> W'"
  proof (intro ballI allI impI)
    fix y x assume y: "y \<in> ids m'" and xy: "ancestorAt ts x y"
    have "x \<notin> W \<union> C"
    proof (cases "y \<in> ids m")
      case True
      then show ?thesis using i3 xy childNotAbove by blast
    next
      case False
      then have "y \<in> C" using y sub by blast
      then consider "x = A" | "ancestorAt ts x A" using C xy by blast
      then show ?thesis
        using A AC overA by cases blast+
    qed
    then show "x \<notin> W'" using W' by blast
  qed
  have c4: "\<forall>y \<in> W'. \<forall>x. ancestorAt ts x y \<longrightarrow> int (level (fst x)) < z \<longrightarrow> x \<notin> ids m'"
  proof (intro ballI allI impI)
    fix y x assume y: "y \<in> W'" and xy: "ancestorAt ts x y" and lv: "int (level (fst x)) < z"
    show "x \<notin> ids m'"
    proof (cases "y \<in> W")
      case True
      then have "x \<notin> ids m" using i4 xy lv by blast
      moreover have "x \<notin> C" using childNotAbove xy True by blast
      ultimately show ?thesis using sub by blast
    next
      case False
      then have "y \<in> C" using y W' by blast
      then consider "x = A" | "ancestorAt ts x A" using C xy by blast
      then show ?thesis
      proof cases
        case 1
        then show ?thesis using ids lv AC by auto
      next
        case 2
        then show ?thesis using overA lv sub by blast
      qed
    qed
  qed
  have c5: "\<forall>y \<in> ids m'. \<forall>x. ancestorAt ts x y \<longrightarrow> int (level (fst x)) < z \<longrightarrow> x \<notin> ids m'"
  proof (intro ballI allI impI)
    fix y x assume y: "y \<in> ids m'" and xy: "ancestorAt ts x y" and lv: "int (level (fst x)) < z"
    show "x \<notin> ids m'"
    proof (cases "y \<in> ids m")
      case True
      then have "x \<notin> ids m" using i5 xy lv by blast
      moreover have "x \<notin> C" using childNotAbove xy True by blast
      ultimately show ?thesis using sub by blast
    next
      case False
      then have "y \<in> C" using y sub by blast
      then consider "x = A" | "ancestorAt ts x A" using C xy by blast
      then show ?thesis
      proof cases
        case 1
        then show ?thesis using ids lv AC by auto
      next
        case 2
        then show ?thesis using overA lv sub by blast
      qed
    qed
  qed
  show ?thesis
    unfolding mapInv_def
    by (rule conjI [OF keyed conjI [OF c2 conjI [OF c3 conjI [OF c4 c5]]]])
qed


lemma visitTile_inv:
  assumes tree: "treeScheme ts" and du: "distinct uzl"
    and inv: "traversalInv ts getKey uzl s"
  shows "traversalInv ts getKey uzl (visitTile getKey mixed ts zls dss target uzl wb s)"
proof (cases "fst s")
  case Nil
  then show ?thesis using inv by (simp add: visitTile_def)
next
  case (Cons p rest)
  let ?A = "addr p"
  let ?W = "addr ` set rest"
  let ?cs = "scheme_getSubTileKeys ts (tileKey p)"
  let ?C = "(\<lambda>c. (c, offset p)) ` set ?cs"
  have W0: "addr ` set (fst s) = insert ?A ?W"
    using Cons by simp
  have keys: "map fst (snd s) = uzl"
    and dwl: "distinct (map addr (fst s))"
    and old0: "\<forall>y \<in> addr ` set (fst s). \<forall>x. ancestorAt ts x y \<longrightarrow> x \<notin> addr ` set (fst s)"
    and maps0: "\<forall>z m. map_of (snd s) z = Some m \<longrightarrow> mapInv ts getKey (addr ` set (fst s)) z m"
    using inv unfolding traversalInv_def by simp_all
  have A: "?A \<notin> ?W" and drest: "distinct (map addr rest)"
    using dwl Cons by auto
  have old: "\<forall>y \<in> insert ?A ?W. \<forall>x. ancestorAt ts x y \<longrightarrow> x \<notin> insert ?A ?W"
    using old0 unfolding W0 .
  have maps: "mapInv ts getKey (insert ?A ?W) z m" if "map_of (snd s) z = Some m" for z m
    using maps0 that unfolding W0 by blast
  show ?thesis
  proof (cases "some_shouldSubdivide dss zls (tileKey p) \<and>
      \<not> (mixed \<and> number_less (area p) target)")
    case False
    then have eq: "visitTile getKey mixed ts zls dss target uzl wb s = (rest, snd s)"
      using Cons by (auto simp: visitTile_def Let_def)
    have "\<forall>y \<in> ?W. \<forall>x. ancestorAt ts x y \<longrightarrow> x \<notin> ?W"
      using old by blast
    moreover have "\<forall>z m. map_of (snd s) z = Some m \<longrightarrow> mapInv ts getKey ?W z m"
      using maps mapInv_mono [of ?W "insert ?A ?W"] by blast
    ultimately show ?thesis
      unfolding eq traversalInv_def using keys drest by simp
  next
    case True
    define M1 where "M1 = foldl (\<lambda>m z. if int (level (tileKey p)) \<ge> z then m
        else AList.map_entry z (AList.delete (getKey (tileKey p) (offset p))) m) (snd s) uzl"
    define s' where "s' = foldl (visitChild getKey ts uzl wb p) (rest, M1) ?cs"
    have eq: "visitTile getKey mixed ts zls dss target uzl wb s = s'"
      using Cons True by (auto simp: visitTile_def Let_def M1_def s'_def)
    have C: "\<forall>c \<in> ?C. ancestorAt ts ?A c \<and> (\<forall>x. ancestorAt ts x c \<longrightarrow> x = ?A \<or> ancestorAt ts x ?A)"
    proof (intro ballI conjI allI impI)
      fix c assume "c \<in> ?C"
      then obtain k where k: "k \<in> set ?cs" "c = (k, offset p)"
        by auto
      have ch: "isChild ts (tileKey p) k"
        using k by (simp add: isChild_def)
      show "ancestorAt ts ?A c"
        using ancestorAt_child(1) [OF tree ch] by (simp add: k addr_def)
      fix x assume "ancestorAt ts x c"
      then show "x = ?A \<or> ancestorAt ts x ?A"
        using ancestorAt_child(2) [OF tree ch, of x "offset p"] by (simp add: k addr_def)
    qed
    have W': "addr ` set (fst s') \<subseteq> ?W \<union> ?C"
      using visitChildren_fst [of getKey ts uzl wb p "(rest, M1)" ?cs] by (simp add: s'_def)
    have k': "map fst (snd s') = uzl"
      by (simp add: s'_def visitChildren_keys M1_def map_fst_foldl_map_entry keys)
    have fresh: "\<forall>c \<in> set ?cs. (c, offset p) \<notin> addr ` set (fst (rest, M1))"
    proof
      fix c assume "c \<in> set ?cs"
      then have "ancestorAt ts ?A (c, offset p)" using C by blast
      then have "(c, offset p) \<notin> ?W" using old by blast
      then show "(c, offset p) \<notin> addr ` set (fst (rest, M1))" by simp
    qed
    have d': "distinct (map addr (fst s'))"
      unfolding s'_def
      using drest tree fresh
      by (intro visitChildren_distinct) (auto simp: treeScheme_def)
    have j': "\<forall>y \<in> addr ` set (fst s'). \<forall>x. ancestorAt ts x y \<longrightarrow> x \<notin> addr ` set (fst s')"
      by (rule stack_step [OF tree old A C W'])
    have m': "mapInv ts getKey (addr ` set (fst s')) z m'" if "map_of (snd s') z = Some m'" for z m'
    proof -
      from visitChildren_map [OF du that [unfolded s'_def]]
      obtain m1 where m1: "map_of M1 z = Some m1"
        "ids m' \<subseteq> ids m1 \<union> {(c, offset p) |c. c \<in> set ?cs \<and> int (level c) \<le> z}"
        "keyed getKey m1 \<longrightarrow> keyed getKey m'"
        by auto
      have M1z: "map_of M1 z =
          (if z \<in> set uzl \<and> \<not> int (level (tileKey p)) \<ge> z
           then map_option (AList.delete (getKey (tileKey p) (offset p))) (map_of (snd s) z)
           else map_of (snd s) z)"
        unfolding M1_def by (rule map_of_foldl_map_entry [OF du])
      from m1(1) M1z obtain m where m: "map_of (snd s) z = Some m"
        by (auto split: if_splits)
      then have "z \<in> set uzl"
        using keys map_of_SomeD [OF m] by force
      then have m1eq: "m1 = (if int (level (tileKey p)) < z
          then AList.delete (getKey (tileKey p) (offset p)) m else m)"
        using m1(1) M1z m by (auto split: if_splits)
      have inv_m: "mapInv ts getKey (insert ?A ?W) z m"
        by (rule maps [OF m])
      then have km: "keyed getKey m"
        unfolding mapInv_def by simp
      have k1: "keyed getKey m1"
        unfolding m1eq using km by (simp add: keyed_delete)
      define D where "D = (if int (level (fst ?A)) < z then {?A} else {})"
      define E where "E = {c \<in> ?C. int (level (fst c)) \<le> z}"
      have "ids m1 \<subseteq> ids m - D"
        unfolding m1eq D_def using ids_delete [OF km, of ?A] by (auto simp: addr_def)
      moreover have "{(c, offset p) |c. c \<in> set ?cs \<and> int (level c) \<le> z} \<subseteq> E"
        unfolding E_def by auto
      ultimately have "ids m' \<subseteq> (ids m - D) \<union> E"
        using m1(2) by blast
      then have ids': "ids m' \<subseteq> (ids m - (if int (level (fst ?A)) < z then {?A} else {})) \<union>
          {c \<in> ?C. int (level (fst c)) \<le> z}"
        unfolding D_def E_def .
      have keyed': "keyed getKey m'"
        using m1(3) k1 by simp
      show ?thesis
        by (rule mapInv_step [OF tree inv_m old A C W' ids' keyed'])
    qed
    show ?thesis
      unfolding eq traversalInv_def using k' d' j' m' by blast
  qed
qed

lemma ancestorAt_level0: "treeScheme ts \<Longrightarrow> level (fst y) = 0 \<Longrightarrow> \<not> ancestorAt ts x y"
  using ancestorAt_level [of ts x y] by auto

lemma mapInv_level0:
  assumes "treeScheme ts" "keyed getKey m" "\<forall>y \<in> ids m. level (fst y) = 0"
    and "\<forall>y \<in> W. level (fst y) = 0"
  shows "mapInv ts getKey W z m"
  unfolding mapInv_def using assms ancestorAt_level0 [OF assms(1)] by (meson)

lemma traversalInv_root:
  assumes tree: "treeScheme ts"
  shows "traversalInv ts getKey (Set_new zls) ([rootEntry], rootOnly getKey zls)"
proof -
  have lv: "\<forall>y \<in> addr ` set [rootEntry]. level (fst y) = 0"
    by (simp add: addr_def rootEntry_def rootTileKey_def)
  have "mapInv ts getKey (addr ` set [rootEntry]) z m"
    if "map_of (rootOnly getKey zls) z = Some m" for z m
  proof -
    have "m = [(getKey rootTileKey 0, rootEntry)]"
      using map_of_SomeD [OF that] by (auto simp: rootOnly_def)
    then have "keyed getKey m" "\<forall>y \<in> ids m. level (fst y) = 0"
      by (simp_all add: keyed_def ids_def addr_def rootEntry_def rootTileKey_def)
    then show ?thesis
      using lv by (intro mapInv_level0 [OF tree])
  qed
  moreover have "\<forall>y \<in> addr ` set [rootEntry]. \<forall>x. ancestorAt ts x y \<longrightarrow> x \<notin> addr ` set [rootEntry]"
    using lv ancestorAt_level0 [OF tree] by blast
  ultimately show ?thesis
    unfolding traversalInv_def by (simp add: rootOnly_def comp_def)
qed

lemma seedEntries_Nil: "seedEntries getKey [] (Set_new zls) = map (\<lambda>z. (z, [])) (Set_new zls)"
  using foldl_update_fresh [of "Set_new zls" "[]" "[]"]
  by (simp add: seedEntries_def distinct_Set_new)

lemma traversalInv_empty:
  assumes tree: "treeScheme ts"
  shows "traversalInv ts getKey (Set_new zls) ([], map (\<lambda>z. (z, [])) (Set_new zls))"
proof -
  have "mapInv ts getKey {} z m"
    if "map_of (map (\<lambda>z. (z, [])) (Set_new zls)) z = Some m" for z m
  proof -
    have "m = []"
      using map_of_SomeD [OF that] by auto
    then show ?thesis
      by (simp add: mapInv_def keyed_def ids_def)
  qed
  then show ?thesis
    unfolding traversalInv_def by (simp add: comp_def)
qed

lemma mapInv_partitioned:
  assumes tree: "treeScheme ts" and inv: "mapInv ts getKey W z m"
  shows "partitioned ts m"
  unfolding partitioned_def
proof (intro ballI, clarify)
  fix k1 e1 k2 e2
  assume e1: "(k1, e1) \<in> set m" and e2: "(k2, e2) \<in> set m"
    and off: "offset e1 = offset e2" and anc: "isAncestor ts (tileKey e1) (tileKey e2)"
  have x: "addr e1 \<in> ids m" and y: "addr e2 \<in> ids m"
    using e1 e2 unfolding ids_def by force+
  have ab: "ancestorAt ts (addr e1) (addr e2)"
    using off anc by (simp add: ancestorAt_def addr_def)
  then have lt: "level (fst (addr e1)) < level (fst (addr e2))"
    using ancestorAt_level [OF tree] by blast
  have i2: "\<forall>y \<in> ids m. int (level (fst y)) \<le> z \<or> level (fst y) = 0"
    and i5: "\<forall>y \<in> ids m. \<forall>x. ancestorAt ts x y \<longrightarrow> int (level (fst x)) < z \<longrightarrow> x \<notin> ids m"
    using inv unfolding mapInv_def by simp_all
  have "int (level (fst (addr e2))) \<le> z"
    using i2 y lt by force
  then have "int (level (fst (addr e1))) < z"
    using lt by linarith
  then have "addr e1 \<notin> ids m"
    using i5 y ab by blast
  then show False using x by simp
qed

text \<open>The objects the class produces have no root or the one root entry.\<close>

lemma ViewIntersection_new_roots:
  "m_rootTileKeys (ViewIntersection_new identity camera mv wrapping mixedLod) = []"
  by (simp add: ViewIntersection_new_def)

lemma compute_roots:
  assumes "compute getKey this ts ers zls dss = Some (Inr (this', r))"
  shows "m_rootTileKeys this' = m_rootTileKeys this"
  using compute_state [OF assms] by simp

text \<open>
  C1. Let the tiling scheme be a tree (children deeper than their parent, one parent per
  key, no key listed twice) and let the object hold the roots the class seeds (none
  before \<open>updateFrustum\<close>, the one root entry after it). Then in every zoom-level map
  that a completed \<open>compute\<close> returns, no two entries with the same offset have tile
  keys of which one is an ancestor of the other.
\<close>

theorem compute_partition:
  assumes tree: "treeScheme tilingScheme"
    and roots: "m_rootTileKeys this = [] \<or> m_rootTileKeys this = [rootEntry]"
    and res: "compute getKeyForTileKeyAndOffset this tilingScheme elevationRangeSource
                zoomLevels dataSources = Some (Inr (this', r))"
    and zm: "(zoomLevel, m) \<in> set (tileKeyEntries r)"
  shows "partitioned tilingScheme m"
proof (cases "m_worldBox this")
  case None
  then have "tileKeyEntries r = []"
    using res by (auto simp: compute_def)
  then show ?thesis using zm by simp
next
  case (Some worldBox)
  let ?uzl = "Set_new zoomLevels"
  let ?c = "visitTile getKeyForTileKeyAndOffset (m_enableMixedLod this) tilingScheme
      zoomLevels dataSources ((256 / mapView_viewportHeight (mapView this)) ^ 2) ?uzl worldBox"
  let ?s0 = "(rev (m_rootTileKeys this),
      seedEntries getKeyForTileKeyAndOffset (m_rootTileKeys this) ?uzl)"
  from res Some obtain t where t: "while_option (\<lambda>s. fst s \<noteq> []) ?c ?s0 = Some t"
    and r: "tileKeyEntries r = snd t"
    by (auto simp: compute_def Let_def traverse_def split: option.splits if_splits)
  have init: "traversalInv tilingScheme getKeyForTileKeyAndOffset ?uzl ?s0"
    using roots
  proof
    assume "m_rootTileKeys this = []"
    then show ?thesis
      using traversalInv_empty [OF tree] by (simp add: seedEntries_Nil)
  next
    assume "m_rootTileKeys this = [rootEntry]"
    then show ?thesis
      using traversalInv_root [OF tree] by (simp add: seedEntries_rootEntry)
  qed
  have fin: "traversalInv tilingScheme getKeyForTileKeyAndOffset ?uzl t"
    by (rule while_option_rule
        [where P = "traversalInv tilingScheme getKeyForTileKeyAndOffset ?uzl", OF _ t init])
      (rule visitTile_inv [OF tree distinct_Set_new])
  then have "distinct (map fst (snd t))"
    unfolding traversalInv_def by (simp add: distinct_Set_new)
  then have "map_of (snd t) zoomLevel = Some m"
    using zm r by simp
  then have "mapInv tilingScheme getKeyForTileKeyAndOffset (addr ` set (fst t)) zoomLevel m"
    using fin unfolding traversalInv_def by blast
  then show ?thesis
    by (rule mapInv_partitioned [OF tree])
qed

lemma treeScheme_quadTree: "treeScheme quadTreeScheme"
  unfolding treeScheme_def isChild_def
proof (intro conjI allI impI)
  fix p c assume "c \<in> set (scheme_getSubTileKeys quadTreeScheme p)"
  then show "level p < level c"
    by (auto simp: quadTreeScheme_def)
next
  fix p p' c
  assume "c \<in> set (scheme_getSubTileKeys quadTreeScheme p)"
    and "c \<in> set (scheme_getSubTileKeys quadTreeScheme p')"
  then have "row c div 2 = row p \<and> column c div 2 = column p \<and> level c = level p + 1"
    and "row c div 2 = row p' \<and> column c div 2 = column p' \<and> level c = level p' + 1"
    by (auto simp: quadTreeScheme_def)
  then show "p = p'"
    by (cases p; cases p') simp
next
  fix p show "distinct (scheme_getSubTileKeys quadTreeScheme p)"
    by (simp add: quadTreeScheme_def)
qed


lemma worldView_eq:
  "worldView = \<lparr>m_viewProjectionMatrix = (), m_rootTileKeys = [rootEntry],
     m_tileKeyEntries = [], m_worldBox = Some (box (-180) (-90) 180 90),
     m_camera = exampleCamera,
     mapView = \<lparr>mapView_geoBox = Some (box (-180) (-90) 180 90),
       mapView_viewportHeight = 512, mapView_projectionType = Planar\<rparr>,
     m_tileWrappingEnabled = False, m_enableMixedLod = False\<rparr>"
  by (simp add: worldView_def updateFrustum_def ViewIntersection_new_def
      computeRequiredInitialRootTileKeys_def Let_def rootEntry_def)

lemma compute_world:
  "compute pairKey worldView quadTreeScheme None [1] [levelSource] =
     Some (Inr (worldView\<lparr>m_tileKeyEntries := [(1, level1Tiles)]\<rparr>,
                \<lparr>tileKeyEntries = [(1, level1Tiles)], calculationFinal = True\<rparr>))"
  apply (simp add: compute_def worldView_eq Let_def traverse_def Set_new_def seedEntries_def)
  apply (subst while_option_unfold)
  apply (simp add: eval_defs)
  apply (simp add: pairKey_def prod_encode_def triangle_def)
  apply (subst while_option_unfold)
  apply (simp add: eval_defs)
  apply (subst while_option_unfold)
  apply (simp add: eval_defs)
  apply (subst while_option_unfold)
  apply (simp add: eval_defs)
  apply (subst while_option_unfold)
  apply (simp add: eval_defs)
  apply (subst while_option_unfold)
  apply (simp add: level1Tiles_def childAt_def rootEntry_def rootTileKey_def box_def)
  done

text \<open>
  Zoom level 1 over the whole world: the root is replaced by its four children.
\<close>

theorem compute_partition_witness:
  "treeScheme quadTreeScheme \<and>
   m_rootTileKeys worldView = [rootEntry] \<and>
   compute pairKey worldView quadTreeScheme None [1] [levelSource] =
     Some (Inr (worldView\<lparr>m_tileKeyEntries := [(1, level1Tiles)]\<rparr>,
                \<lparr>tileKeyEntries = [(1, level1Tiles)], calculationFinal = True\<rparr>)) \<and>
   (1, level1Tiles) \<in> set (tileKeyEntries
      \<lparr>tileKeyEntries = [(1, level1Tiles)], calculationFinal = True\<rparr>) \<and>
   partitioned quadTreeScheme level1Tiles"
proof -
  have roots: "m_rootTileKeys worldView = [] \<or> m_rootTileKeys worldView = [rootEntry]"
    by (simp add: worldView_eq)
  have zm: "(1, level1Tiles) \<in> set (tileKeyEntries
      \<lparr>tileKeyEntries = [(1, level1Tiles)], calculationFinal = True\<rparr>)"
    by simp
  show ?thesis
    using compute_partition [OF treeScheme_quadTree roots compute_world zm]
      treeScheme_quadTree compute_world
    by (simp add: worldView_eq)
qed

section \<open>Mixed LOD\<close>

text \<open>
  With mixed LOD on, a work list of entries that all lie below the target empties
  without a change to the maps.
\<close>

lemma traverse_all_below:
  assumes "mixed" and "\<forall>e \<in> set wl. number_less (area e) target"
  shows "traverse getKey mixed ts zls dss target uzl wb (wl, M) = Some ([], M)"
  using assms(2)
proof (induction wl)
  case Nil
  show ?case
    unfolding traverse_def by (subst while_option_unfold) simp
next
  case (Cons e wl)
  have step: "visitTile getKey mixed ts zls dss target uzl wb (e # wl, M) = (wl, M)"
    using assms(1) Cons.prems by (simp add: visitTile_def Let_def)
  have "traverse getKey mixed ts zls dss target uzl wb (e # wl, M) =
      traverse getKey mixed ts zls dss target uzl wb (wl, M)"
    unfolding traverse_def by (subst while_option_unfold) (simp add: step)
  then show ?case
    using Cons by simp
qed

text \<open>Every entry the loop over the children pushes has area 1.\<close>

lemma visitChildren_area:
  "\<forall>e \<in> set (fst (foldl (visitChild getKey ts uzl wb p) s cs)).
     e \<in> set (fst s) \<or> area e = Finite 1"
proof (induction cs arbitrary: s)
  case Nil
  then show ?case by simp
next
  case (Cons c cs)
  have "\<forall>e \<in> set (fst (visitChild getKey ts uzl wb p s c)). e \<in> set (fst s) \<or> area e = Finite 1"
    by (auto simp: visitChild_eq childEntry_def)
  with Cons.IH [of "visitChild getKey ts uzl wb p s c"] show ?case
    by auto
qed

lemma visitTile_root_stack:
  "\<forall>e \<in> set (fst (visitTile getKey mixed ts zls dss target uzl wb ([rootEntry], M))).
     area e = Finite 1"
proof (cases "some_shouldSubdivide dss zls (tileKey rootEntry)")
  case False
  then show ?thesis by (simp add: visitTile_def Let_def)
next
  case True
  have inf: "\<not> number_less (area rootEntry) target"
    by (simp add: rootEntry_def)
  show ?thesis
    using True inf visitChildren_area [where s = "([], M')" and p = rootEntry for M']
    by (auto simp: visitTile_def Let_def)
qed

text \<open>
  C6. With mixed LOD enabled, a popped entry whose area is below the target tile area
  \<open>(256 / viewportHeight)\<^sup>2\<close> is dropped from the work list and nothing else changes,
  whatever the data sources answer. In \<open>compute\<close>, where a child has area 1, this
  shows when the target exceeds 1: the traversal ends after the iteration that handles
  the root, and the maps are returned as that iteration leaves them.
\<close>

theorem mixedLod_stops_descent:
  "(m_enableMixedLod this \<and>
    number_less (area tileEntry) ((256 / mapView_viewportHeight (mapView this)) ^ 2) \<longrightarrow>
      visitTile getKeyForTileKeyAndOffset (m_enableMixedLod this) tilingScheme zoomLevels
        dataSources ((256 / mapView_viewportHeight (mapView this)) ^ 2) uniqueZoomLevels
        worldBox (tileEntry # workList, entries) = (workList, entries)) \<and>
   (m_enableMixedLod this \<and> m_rootTileKeys this = [rootEntry] \<and>
    m_worldBox this = Some worldBox \<and>
    1 < (256 / mapView_viewportHeight (mapView this)) ^ 2 \<longrightarrow>
      compute getKeyForTileKeyAndOffset this tilingScheme elevationRangeSource zoomLevels
        dataSources =
      Some (Inr (this\<lparr>m_tileKeyEntries :=
                   snd (visitTile getKeyForTileKeyAndOffset (m_enableMixedLod this)
                     tilingScheme zoomLevels dataSources
                     ((256 / mapView_viewportHeight (mapView this)) ^ 2)
                     (Set_new zoomLevels) worldBox
                     ([rootEntry], rootOnly getKeyForTileKeyAndOffset zoomLevels))\<rparr>,
                 \<lparr>tileKeyEntries =
                   snd (visitTile getKeyForTileKeyAndOffset (m_enableMixedLod this)
                     tilingScheme zoomLevels dataSources
                     ((256 / mapView_viewportHeight (mapView this)) ^ 2)
                     (Set_new zoomLevels) worldBox
                     ([rootEntry], rootOnly getKeyForTileKeyAndOffset zoomLevels)),
                  calculationFinal = True\<rparr>)))"
proof (intro conjI impI)
  assume "m_enableMixedLod this \<and>
    number_less (area tileEntry) ((256 / mapView_viewportHeight (mapView this)) ^ 2)"
  then show "visitTile getKeyForTileKeyAndOffset (m_enableMixedLod this) tilingScheme zoomLevels
        dataSources ((256 / mapView_viewportHeight (mapView this)) ^ 2) uniqueZoomLevels
        worldBox (tileEntry # workList, entries) = (workList, entries)"
    by (simp add: visitTile_def Let_def)
next
  let ?h = "mapView_viewportHeight (mapView this)"
  let ?t = "(256 / ?h) ^ 2"
  let ?c = "visitTile getKeyForTileKeyAndOffset (m_enableMixedLod this) tilingScheme zoomLevels
      dataSources ?t (Set_new zoomLevels) worldBox"
  let ?s0 = "([rootEntry], rootOnly getKeyForTileKeyAndOffset zoomLevels)"
  assume a: "m_enableMixedLod this \<and> m_rootTileKeys this = [rootEntry] \<and>
    m_worldBox this = Some worldBox \<and> 1 < ?t"
  then have h0: "?h \<noteq> 0"
    by auto
  have below: "\<forall>e \<in> set (fst (?c ?s0)). number_less (area e) ?t"
    using visitTile_root_stack [of getKeyForTileKeyAndOffset "m_enableMixedLod this"
        tilingScheme zoomLevels dataSources ?t "Set_new zoomLevels" worldBox
        "rootOnly getKeyForTileKeyAndOffset zoomLevels"] a
    by auto
  have rest: "traverse getKeyForTileKeyAndOffset (m_enableMixedLod this) tilingScheme
      zoomLevels dataSources ?t (Set_new zoomLevels) worldBox (?c ?s0) =
      Some ([], snd (?c ?s0))"
    using traverse_all_below [of "m_enableMixedLod this" "fst (?c ?s0)" ?t
        getKeyForTileKeyAndOffset tilingScheme zoomLevels dataSources "Set_new zoomLevels"
        worldBox "snd (?c ?s0)"] a below
    by simp
  have "traverse getKeyForTileKeyAndOffset (m_enableMixedLod this) tilingScheme
      zoomLevels dataSources ?t (Set_new zoomLevels) worldBox ?s0 =
      traverse getKeyForTileKeyAndOffset (m_enableMixedLod this) tilingScheme
      zoomLevels dataSources ?t (Set_new zoomLevels) worldBox (?c ?s0)"
    unfolding traverse_def by (subst while_option_unfold) simp
  then have "traverse getKeyForTileKeyAndOffset (m_enableMixedLod this) tilingScheme
      zoomLevels dataSources ?t (Set_new zoomLevels) worldBox ?s0 = Some ([], snd (?c ?s0))"
    using rest by simp
  then show "compute getKeyForTileKeyAndOffset this tilingScheme elevationRangeSource zoomLevels
        dataSources =
      Some (Inr (this\<lparr>m_tileKeyEntries := snd (?c ?s0)\<rparr>,
                 \<lparr>tileKeyEntries = snd (?c ?s0), calculationFinal = True\<rparr>))"
    using a h0 by (simp add: compute_def Let_def seedEntries_rootEntry)
qed

text \<open>
  Viewport height 128: the target is 4, and the tile of level 1 stays in the map of zoom
  level 2 although its data source asks for subdivision; without mixed LOD the same
  request returns the tile of level 2. Viewport height 512: the target is 0.25, and an
  entry of area 0.1 is dropped.
\<close>

lemma mixedView_eq:
  "mixedView h = \<lparr>m_viewProjectionMatrix = (), m_rootTileKeys = [rootEntry],
     m_tileKeyEntries = [], m_worldBox = Some (box 10 10 20 20), m_camera = exampleCamera,
     mapView = \<lparr>mapView_geoBox = Some (box 10 10 20 20), mapView_viewportHeight = h,
       mapView_projectionType = Planar\<rparr>,
     m_tileWrappingEnabled = False, m_enableMixedLod = True\<rparr>"
  by (simp add: mixedView_def updateFrustum_def ViewIntersection_new_def
      computeRequiredInitialRootTileKeys_def Let_def rootEntry_def)

lemma visitTile_mixed_example:
  "visitTile pairKey True quadTreeScheme [2] [levelSource] target [2] (box 10 10 20 20)
     ([rootEntry], [(2, [(0, rootEntry)])]) = ([child11], [(2, [(37, child11)])])"
  apply (simp add: eval_defs)
  apply (simp add: child11_def pairKey_def prod_encode_def triangle_def)
  done

lemma compute_example_level2:
  "compute pairKey exampleView quadTreeScheme None [2] [levelSource] =
     Some (Inr (exampleView\<lparr>m_tileKeyEntries := [(2, [(530, child22)])]\<rparr>,
                \<lparr>tileKeyEntries = [(2, [(530, child22)])], calculationFinal = True\<rparr>))"
  apply (simp add: compute_def exampleView_eq Let_def traverse_def Set_new_def seedEntries_def)
  apply (subst while_option_unfold)
  apply (simp add: eval_defs)
  apply (simp add: pairKey_def prod_encode_def triangle_def)
  apply (subst while_option_unfold)
  apply (simp add: eval_defs)
  apply (simp add: pairKey_def prod_encode_def triangle_def)
  apply (subst while_option_unfold)
  apply (simp add: eval_defs)
  apply (subst while_option_unfold)
  apply (simp add: child22_def rootEntry_def rootTileKey_def box_def)
  done

theorem mixedLod_stops_descent_witness:
  "m_enableMixedLod (mixedView 128) \<and> m_rootTileKeys (mixedView 128) = [rootEntry] \<and>
   m_worldBox (mixedView 128) = Some (box 10 10 20 20) \<and>
   (256 / mapView_viewportHeight (mapView (mixedView 128))) ^ 2 = 4 \<and>
   number_less (area child11) 4 \<and>
   some_shouldSubdivide [levelSource] [2] (tileKey child11) \<and>
   compute pairKey (mixedView 128) quadTreeScheme None [2] [levelSource] =
     Some (Inr ((mixedView 128)\<lparr>m_tileKeyEntries := [(2, [(37, child11)])]\<rparr>,
                \<lparr>tileKeyEntries = [(2, [(37, child11)])], calculationFinal = True\<rparr>)) \<and>
   compute pairKey exampleView quadTreeScheme None [2] [levelSource] =
     Some (Inr (exampleView\<lparr>m_tileKeyEntries := [(2, [(530, child22)])]\<rparr>,
                \<lparr>tileKeyEntries = [(2, [(530, child22)])], calculationFinal = True\<rparr>)) \<and>
   m_enableMixedLod (mixedView 512) \<and>
   (256 / mapView_viewportHeight (mapView (mixedView 512))) ^ 2 = 0.25 \<and>
   number_less (area (child11\<lparr>area := Finite 0.1\<rparr>)) 0.25 \<and>
   visitTile pairKey (m_enableMixedLod (mixedView 512)) quadTreeScheme [2] [levelSource]
       ((256 / mapView_viewportHeight (mapView (mixedView 512))) ^ 2) [2] (box 10 10 20 20)
       ([child11\<lparr>area := Finite 0.1\<rparr>], [(2, [(37, child11\<lparr>area := Finite 0.1\<rparr>)])]) =
     ([], [(2, [(37, child11\<lparr>area := Finite 0.1\<rparr>)])])"
proof -
  have t128: "(256 / mapView_viewportHeight (mapView (mixedView 128))) ^ 2 = 4"
    by (simp add: mixedView_eq power2_eq_square)
  have t512: "(256 / mapView_viewportHeight (mapView (mixedView 512))) ^ 2 = 0.25"
    by (simp add: mixedView_eq power2_eq_square)
  have h1: "m_enableMixedLod (mixedView 128) \<and> m_rootTileKeys (mixedView 128) = [rootEntry] \<and>
    m_worldBox (mixedView 128) = Some (box 10 10 20 20) \<and>
    1 < (256 / mapView_viewportHeight (mapView (mixedView 128))) ^ 2"
    unfolding t128 by (simp add: mixedView_eq)
  have h2: "m_enableMixedLod (mixedView 512) \<and>
    number_less (area (child11\<lparr>area := Finite 0.1\<rparr>))
      ((256 / mapView_viewportHeight (mapView (mixedView 512))) ^ 2)"
    unfolding t512 by (simp add: mixedView_eq)
  have sub: "some_shouldSubdivide [levelSource] [2] (tileKey child11)"
    by (simp add: levelSource_def child11_def)
  have less: "number_less (area child11) 4"
    by (simp add: child11_def)
  have keys: "rootOnly pairKey [2] = [(2, [(0, rootEntry)])]"
    by (simp add: rootOnly_def Set_new_def pairKey_def rootTileKey_def prod_encode_def
        triangle_def)
  have uzl: "Set_new [2::int] = [2]"
    by (simp add: Set_new_def)
  have me: "m_enableMixedLod (mixedView 128) = True"
    by (simp add: mixedView_eq)
  from mixedLod_stops_descent [where this = "mixedView 128" and worldBox = "box 10 10 20 20"
      and getKeyForTileKeyAndOffset = pairKey and tilingScheme = quadTreeScheme
      and elevationRangeSource = None and zoomLevels = "[2]" and dataSources = "[levelSource]"]
    h1
  have c128: "compute pairKey (mixedView 128) quadTreeScheme None [2] [levelSource] =
     Some (Inr ((mixedView 128)\<lparr>m_tileKeyEntries := [(2, [(37, child11)])]\<rparr>,
                \<lparr>tileKeyEntries = [(2, [(37, child11)])], calculationFinal = True\<rparr>))"
    by (simp add: keys uzl me visitTile_mixed_example)
  from mixedLod_stops_descent [where this = "mixedView 512" and worldBox = "box 10 10 20 20"
      and getKeyForTileKeyAndOffset = pairKey and tilingScheme = quadTreeScheme
      and tileEntry = "child11\<lparr>area := Finite 0.1\<rparr>" and zoomLevels = "[2]"
      and dataSources = "[levelSource]" and uniqueZoomLevels = "[2]" and workList = "[]"
      and entries = "[(2, [(37, child11\<lparr>area := Finite 0.1\<rparr>)])]"] h2
  have s512: "visitTile pairKey (m_enableMixedLod (mixedView 512)) quadTreeScheme [2] [levelSource]
       ((256 / mapView_viewportHeight (mapView (mixedView 512))) ^ 2) [2] (box 10 10 20 20)
       ([child11\<lparr>area := Finite 0.1\<rparr>], [(2, [(37, child11\<lparr>area := Finite 0.1\<rparr>)])]) =
     ([], [(2, [(37, child11\<lparr>area := Finite 0.1\<rparr>)])])"
    by blast
  have n512: "number_less (area (child11\<lparr>area := Finite 0.1\<rparr>)) 0.25"
    by simp
  show ?thesis
    using h1 h2 t128 t512 sub less c128 s512 n512 compute_example_level2
    by blast
qed

end
